theory Spec2Isabelle
  imports Main
begin

section \<open>Python values shared by both servers\<close>

text \<open>
  The two servers are Python programs. Their exceptions are modelled as values: a class
  tag and the text that \<^verbatim>\<open>str(e)\<close> gives. Only subclasses of \<^verbatim>\<open>Exception\<close> occur, so an
  \<^verbatim>\<open>except Exception\<close> clause catches every value of this type. A function that can raise
  returns \<open>exn + 'a\<close>, with \<open>Inl\<close> for the exception.
\<close>

datatype exn_class =
    NameError | AttributeError | TypeError | ValueError
  | HTTPError | ConnectionError | Timeout | JSONDecodeError
  | FileNotFoundError | NotADirectoryError | FileExistsError | IsADirectoryError
  | OSError

datatype exn = Exn exn_class string

fun exn_cls :: "exn \<Rightarrow> exn_class" where
  "exn_cls (Exn c m) = c"

fun str_exn :: "exn \<Rightarrow> string" where
  "str_exn (Exn c m) = m"

text \<open>\<^verbatim>\<open>except requests.exceptions.HTTPError\<close>: of the classes above only HTTPError itself
  is an instance (ConnectionError, Timeout and JSONDecodeError are siblings under
  RequestException).\<close>

definition is_HTTPError :: "exn \<Rightarrow> bool" where
  "is_HTTPError e = (exn_cls e = HTTPError)"

definition bnd :: "exn + 'a \<Rightarrow> ('a \<Rightarrow> exn + 'b) \<Rightarrow> exn + 'b" where
  "bnd m f = (case m of Inl e \<Rightarrow> Inl e | Inr x \<Rightarrow> f x)"

text \<open>
  Values decoded from JSON, and the dictionaries handed to \<^verbatim>\<open>json.dumps\<close>. A Python dict is
  an association list read with \<open>map_of\<close>; numbers are integers (no field the servers
  inspect is fractional); a string is a list of characters, which \<^verbatim>\<open>len\<close> counts. The tools
  return \<^verbatim>\<open>json.dumps(d)\<close>; the model returns the value \<open>d\<close> itself, serialisation being
  total on this type.
\<close>

datatype json =
    JNull | JBool bool | JNum int | JStr string
  | JArr "json list" | JObj "(string \<times> json) list"

text \<open>Python truthiness (\<^verbatim>\<open>if v:\<close>).\<close>

fun truthy :: "json \<Rightarrow> bool" where
  "truthy JNull = False"
| "truthy (JBool b) = b"
| "truthy (JNum n) = (n \<noteq> 0)"
| "truthy (JStr s) = (s \<noteq> [])"
| "truthy (JArr xs) = (xs \<noteq> [])"
| "truthy (JObj kvs) = (kvs \<noteq> [])"

fun type_name :: "json \<Rightarrow> string" where
  "type_name JNull = ''NoneType''"
| "type_name (JBool b) = ''bool''"
| "type_name (JNum n) = ''int''"
| "type_name (JStr s) = ''str''"
| "type_name (JArr xs) = ''list''"
| "type_name (JObj kvs) = ''dict''"

text \<open>\<^verbatim>\<open>d.get(k, default)\<close> on a dict.\<close>

definition dget :: "(string \<times> json) list \<Rightarrow> string \<Rightarrow> json \<Rightarrow> json" where
  "dget kvs k d = (case map_of kvs k of None \<Rightarrow> d | Some v \<Rightarrow> v)"

text \<open>The apostrophe, which cannot be written inside a string literal.\<close>

definition apos :: string where
  "apos = [CHR 0x27]"

definition quoted :: "string \<Rightarrow> string" where
  "quoted s = apos @ s @ apos"

text \<open>\<^verbatim>\<open>v.get(k, default)\<close> on any value: only a dict has the method.\<close>

fun py_get :: "json \<Rightarrow> string \<Rightarrow> json \<Rightarrow> exn + json" where
  "py_get (JObj kvs) k d = Inr (dget kvs k d)"
| "py_get v k d =
     Inl (Exn AttributeError
       (quoted (type_name v) @ '' object has no attribute '' @ quoted ''get''))"

text \<open>\<^verbatim>\<open>for x in v\<close>: a list yields its items, a dict its keys, a string its characters;
  \<^verbatim>\<open>None\<close>, a bool and a number are not iterable.\<close>

fun py_iter :: "json \<Rightarrow> exn + json list" where
  "py_iter (JArr xs) = Inr xs"
| "py_iter (JObj kvs) = Inr (map (\<lambda>kv. JStr (fst kv)) kvs)"
| "py_iter (JStr s) = Inr (map (\<lambda>c. JStr [c]) s)"
| "py_iter v = Inl (Exn TypeError (quoted (type_name v) @ '' object is not iterable''))"

text \<open>\<^verbatim>\<open>len(v)\<close>.\<close>

fun py_len :: "json \<Rightarrow> exn + nat" where
  "py_len (JStr s) = Inr (length s)"
| "py_len (JArr xs) = Inr (length xs)"
| "py_len (JObj kvs) = Inr (length kvs)"
| "py_len v = Inl (Exn TypeError (''object of type '' @ quoted (type_name v) @ '' has no len()''))"

text \<open>\<^verbatim>\<open>v[:200]\<close>: strings and lists are sliced; a dict takes the slice for a key.\<close>

fun py_slice200 :: "json \<Rightarrow> exn + json" where
  "py_slice200 (JStr s) = Inr (JStr (take 200 s))"
| "py_slice200 (JArr xs) = Inr (JArr (take 200 xs))"
| "py_slice200 (JObj kvs) = Inl (Exn TypeError (''unhashable type: '' @ quoted ''slice''))"
| "py_slice200 v = Inl (Exn TypeError (quoted (type_name v) @ '' object is not subscriptable''))"

text \<open>\<^verbatim>\<open>v + "..."\<close> with a string on the right.\<close>

fun py_add_str :: "json \<Rightarrow> string \<Rightarrow> exn + json" where
  "py_add_str (JStr s) t = Inr (JStr (s @ t))"
| "py_add_str (JArr xs) t =
     Inl (Exn TypeError (''can only concatenate list (not '' @ [CHR 0x22] @ ''str''
        @ [CHR 0x22] @ '') to list''))"
| "py_add_str v t =
     Inl (Exn TypeError (''unsupported operand type(s) for +: '' @ quoted (type_name v)
        @ '' and '' @ quoted ''str''))"

text \<open>\<^verbatim>\<open>k in d\<close> for a dict \<open>d\<close>.\<close>

definition key_in :: "string \<Rightarrow> (string \<times> json) list \<Rightarrow> bool" where
  "key_in k kvs = (k \<in> set (map fst kvs))"

text \<open>\<^verbatim>\<open>os.getenv(NAME)\<close> gives \<^verbatim>\<open>None\<close> or a string; \<^verbatim>\<open>if v:\<close> holds for a non-empty string.
  \<open>env_value\<close> is the string when the test holds.\<close>

definition env_value :: "string option \<Rightarrow> string option" where
  "env_value v = (case v of None \<Rightarrow> None | Some s \<Rightarrow> if s = [] then None else Some s)"

section \<open>Github\_Server.py\<close>

subsection \<open>The transport\<close>

text \<open>
  The \<^verbatim>\<open>requests\<close> library is the environment of the program. A call either raises or
  gives a response, of which the program reads: whether \<^verbatim>\<open>raise_for_status()\<close> raises (the
  message of its HTTPError, for a 4xx or 5xx status), what \<^verbatim>\<open>.json()\<close> gives or raises,
  \<^verbatim>\<open>.text\<close> and \<^verbatim>\<open>.encoding\<close>. \<open>network\<close> is \<^verbatim>\<open>requests.request(method, url, ...)\<close>,
  \<open>downloader\<close> is \<^verbatim>\<open>requests.get(download_url, timeout=30)\<close> on whatever value the
  metadata holds, and \<open>decoder\<close> is \<^verbatim>\<open>base64.b64decode(s).decode('utf-8')\<close> on a string.
  Output written with \<^verbatim>\<open>print\<close> is left out.
\<close>

record http_response =
  resp_status_error :: "string option"
  resp_json :: "exn + json"
  resp_text :: string
  resp_encoding :: "string option"

type_synonym network = "string \<Rightarrow> string \<Rightarrow> exn + http_response"
type_synonym downloader = "json \<Rightarrow> exn + http_response"
type_synonym decoder = "string \<Rightarrow> exn + string"

record GitHubHelper =
  owner :: string
  repo :: string
  github_token :: string

text \<open>\<^verbatim>\<open>_make_github_request\<close>: each of its three \<^verbatim>\<open>except\<close> clauses re-raises.\<close>

definition make_github_request ::
  "network \<Rightarrow> GitHubHelper \<Rightarrow> string \<Rightarrow> string \<Rightarrow> exn + http_response" where
  "make_github_request net self method endpoint =
     (let url = ''https://api.github.com/repos/'' @ owner self @ ''/'' @ repo self
                  @ ''/'' @ endpoint
      in case net method url of
           Inl e \<Rightarrow> Inl e
         | Inr response \<Rightarrow>
             (case resp_status_error response of
                Some m \<Rightarrow> Inl (Exn HTTPError m)
              | None \<Rightarrow> Inr response))"

subsection \<open>get\_last\_merged\_pr\_details\<close>

text \<open>\<^verbatim>\<open>pr.get(k, {}).get(sub) if pr.get(k) else None\<close>\<close>

definition nested_field :: "json \<Rightarrow> string \<Rightarrow> string \<Rightarrow> exn + json" where
  "nested_field pr k sub =
     bnd (py_get pr k JNull) (\<lambda>c.
       if truthy c then bnd (py_get pr k (JObj [])) (\<lambda>inner. py_get inner sub JNull)
       else Inr JNull)"

text \<open>\<^verbatim>\<open>(pr.get("body", "")[:200] + "...") if pr.get("body") and len(pr.get("body", "")) > 200
  else pr.get("body", "")\<close>\<close>

definition body_summary :: "json \<Rightarrow> exn + json" where
  "body_summary pr =
     bnd (py_get pr ''body'' JNull) (\<lambda>c.
       if truthy c then
         bnd (py_get pr ''body'' (JStr [])) (\<lambda>b.
         bnd (py_len b) (\<lambda>n.
           if n > 200 then
             bnd (py_get pr ''body'' (JStr [])) (\<lambda>b2.
             bnd (py_slice200 b2) (\<lambda>cut. py_add_str cut ''...''))
           else py_get pr ''body'' (JStr [])))
       else py_get pr ''body'' (JStr []))"

text \<open>The dictionary returned for a merged pull request, its values built in source order.\<close>

definition pr_details :: "json \<Rightarrow> exn + json" where
  "pr_details pr =
     bnd (py_get pr ''number'' JNull) (\<lambda>v_number.
     bnd (py_get pr ''title'' JNull) (\<lambda>v_title.
     bnd (py_get pr ''html_url'' JNull) (\<lambda>v_url.
     bnd (py_get pr ''merged_at'' JNull) (\<lambda>v_merged_at.
     bnd (nested_field pr ''merged_by'' ''login'') (\<lambda>v_merged_by.
     bnd (nested_field pr ''user'' ''login'') (\<lambda>v_author.
     bnd (body_summary pr) (\<lambda>v_body.
     bnd (nested_field pr ''head'' ''sha'') (\<lambda>v_sha.
     bnd (nested_field pr ''base'' ''ref'') (\<lambda>v_base.
       Inr (JObj [(''number'', v_number), (''title'', v_title), (''url'', v_url),
                  (''merged_at'', v_merged_at), (''merged_by'', v_merged_by),
                  (''author'', v_author), (''body_summary'', v_body),
                  (''head_commit_sha'', v_sha), (''base_branch'', v_base)]))))))))))"

text \<open>The \<^verbatim>\<open>for pr in pull_requests\<close> loop: \<open>None\<close> when it runs to its end.\<close>

fun scan_pull_requests :: "json list \<Rightarrow> exn + json option" where
  "scan_pull_requests [] = Inr None"
| "scan_pull_requests (pr # rest) =
     bnd (py_get pr ''merged_at'' JNull) (\<lambda>m.
       if truthy m then bnd (pr_details pr) (\<lambda>d. Inr (Some d))
       else scan_pull_requests rest)"

definition last_merged_pr_try :: "network \<Rightarrow> GitHubHelper \<Rightarrow> exn + json option" where
  "last_merged_pr_try net self =
     bnd (make_github_request net self ''GET''
            ''pulls?state=closed&sort=updated&direction=desc&per_page=10'') (\<lambda>response.
     bnd (resp_json response) (\<lambda>pull_requests.
     bnd (py_iter pull_requests) scan_pull_requests))"

text \<open>The method catches \<^verbatim>\<open>Exception\<close>, so it returns in every case.\<close>

definition get_last_merged_pr_details :: "network \<Rightarrow> GitHubHelper \<Rightarrow> json option" where
  "get_last_merged_pr_details net self =
     (case last_merged_pr_try net self of
        Inr r \<Rightarrow> r
      | Inl e \<Rightarrow>
          Some (JObj [(''error_message'',
            JStr (''Failed to retrieve or process last merged PR details: '' @ str_exn e))]))"

subsection \<open>get\_dir\_content\<close>

definition dir_entry :: "json \<Rightarrow> exn + json" where
  "dir_entry item =
     bnd (py_get item ''name'' JNull) (\<lambda>v_name.
     bnd (py_get item ''path'' JNull) (\<lambda>v_path.
     bnd (py_get item ''type'' JNull) (\<lambda>v_type.
     bnd (py_get item ''size'' JNull) (\<lambda>v_size.
     bnd (py_get item ''sha'' JNull) (\<lambda>v_sha.
     bnd (py_get item ''html_url'' JNull) (\<lambda>v_html.
     bnd (py_get item ''download_url'' JNull) (\<lambda>v_dl.
       Inr (JObj [(''name'', v_name), (''path'', v_path), (''type'', v_type),
                  (''size'', v_size), (''sha'', v_sha), (''html_url'', v_html),
                  (''download_url'', v_dl)]))))))))"

text \<open>The \<^verbatim>\<open>for item in items\<close> loop appending to \<^verbatim>\<open>dir_content\<close>.\<close>

fun dir_entries :: "json list \<Rightarrow> exn + json list" where
  "dir_entries [] = Inr []"
| "dir_entries (item # rest) =
     bnd (dir_entry item) (\<lambda>d. bnd (dir_entries rest) (\<lambda>ds. Inr (d # ds)))"

definition dir_content_try :: "network \<Rightarrow> GitHubHelper \<Rightarrow> string \<Rightarrow> exn + json" where
  "dir_content_try net self dir_path =
     bnd (make_github_request net self ''GET'' (''contents/'' @ dir_path)) (\<lambda>response.
     bnd (resp_json response) (\<lambda>items.
     bnd (py_iter items) (\<lambda>xs.
     bnd (dir_entries xs) (\<lambda>ds. Inr (JArr ds)))))"

text \<open>Only \<^verbatim>\<open>requests.exceptions.HTTPError\<close> is caught; any other exception leaves the
  method.\<close>

definition get_dir_content :: "network \<Rightarrow> GitHubHelper \<Rightarrow> string \<Rightarrow> exn + json" where
  "get_dir_content net self dir_path =
     (case dir_content_try net self dir_path of
        Inr r \<Rightarrow> Inr r
      | Inl e \<Rightarrow>
          if is_HTTPError e then
            Inr (JObj [(''error_message'',
              JStr (''Directory or path not found: '' @ dir_path @ '' in '' @ owner self
                    @ ''/'' @ repo self))])
          else Inl e)"

subsection \<open>get\_file\_content\<close>

text \<open>\<^verbatim>\<open>base64.b64decode(v).decode('utf-8')\<close>: the library decodes a string and raises
  TypeError on the other values that pass the truth test.\<close>

definition b64_to_text :: "decoder \<Rightarrow> json \<Rightarrow> exn + string" where
  "b64_to_text dec v =
     (case v of
        JStr s \<Rightarrow> dec s
      | _ \<Rightarrow> Inl (Exn TypeError
               (''argument should be a bytes-like object or ASCII string, not ''
                @ quoted (type_name v))))"

text \<open>\<^verbatim>\<open>raw_response.encoding or "utf-8"\<close>\<close>

definition encoding_or_utf8 :: "string option \<Rightarrow> string" where
  "encoding_or_utf8 enc =
     (case enc of None \<Rightarrow> ''utf-8'' | Some e \<Rightarrow> if e = [] then ''utf-8'' else e)"

text \<open>The \<^verbatim>\<open>if\<close>/\<^verbatim>\<open>elif\<close> that settles \<^verbatim>\<open>decoded_content\<close> and \<^verbatim>\<open>encoding\<close>; both inner
  \<^verbatim>\<open>try\<close> blocks catch \<^verbatim>\<open>Exception\<close>, so it raises only if \<open>file_data\<close> is no dict.\<close>

definition decode_policy ::
  "downloader \<Rightarrow> decoder \<Rightarrow> json \<Rightarrow> json \<Rightarrow> json \<Rightarrow> exn + (json \<times> json)" where
  "decode_policy fetch dec file_data content_b64 encoding =
     (if truthy content_b64 \<and> encoding = JStr ''base64'' then
        (case b64_to_text dec content_b64 of
           Inr s \<Rightarrow> Inr (JStr s, encoding)
         | Inl decode_err \<Rightarrow>
             Inr (JStr ''Error: Could not decode content.'', JStr ''error_decoding_base64''))
      else
        bnd (py_get file_data ''download_url'' JNull) (\<lambda>dl.
          if truthy dl then
            (case fetch dl of
               Inr raw_response \<Rightarrow>
                 Inr (JStr (resp_text raw_response),
                      JStr (encoding_or_utf8 (resp_encoding raw_response)))
             | Inl dl_err \<Rightarrow>
                 Inr (JStr ''Error: Could not download content.'', JStr ''error_downloading''))
          else Inr (JStr [], encoding)))"

definition file_content_try ::
  "network \<Rightarrow> downloader \<Rightarrow> decoder \<Rightarrow> GitHubHelper \<Rightarrow> string \<Rightarrow> exn + json" where
  "file_content_try net fetch dec self file_path =
     bnd (make_github_request net self ''GET'' (''contents/'' @ file_path)) (\<lambda>response.
     bnd (resp_json response) (\<lambda>file_data.
     bnd (py_get file_data ''content'' JNull) (\<lambda>content_b64.
     bnd (py_get file_data ''encoding'' JNull) (\<lambda>encoding0.
     bnd (decode_policy fetch dec file_data content_b64 encoding0) (\<lambda>(decoded_content, encoding).
     bnd (py_get file_data ''name'' JNull) (\<lambda>v_name.
     bnd (py_get file_data ''path'' JNull) (\<lambda>v_path.
     bnd (py_get file_data ''sha'' JNull) (\<lambda>v_sha.
     bnd (py_get file_data ''size'' JNull) (\<lambda>v_size.
     bnd (py_get file_data ''html_url'' JNull) (\<lambda>v_html.
     bnd (py_get file_data ''download_url'' JNull) (\<lambda>v_dl.
       Inr (JObj [(''name'', v_name), (''path'', v_path), (''sha'', v_sha),
                  (''size'', v_size), (''encoding'', encoding),
                  (''content'', decoded_content), (''html_url'', v_html),
                  (''download_url'', v_dl)]))))))))))))"

text \<open>Again only HTTPError is caught.\<close>

definition get_file_content ::
  "network \<Rightarrow> downloader \<Rightarrow> decoder \<Rightarrow> GitHubHelper \<Rightarrow> string \<Rightarrow> exn + json" where
  "get_file_content net fetch dec self file_path =
     (case file_content_try net fetch dec self file_path of
        Inr r \<Rightarrow> Inr r
      | Inl e \<Rightarrow>
          if is_HTTPError e then
            Inr (JObj [(''error_message'',
              JStr (''content not found: '' @ file_path @ '' in '' @ owner self
                    @ ''/'' @ repo self))])
          else Inl e)"

subsection \<open>The three tools\<close>

text \<open>Each tool takes what \<^verbatim>\<open>os.getenv("GITHUB_TOKEN")\<close> gives, and the environment.\<close>

definition token_missing_payload :: json where
  "token_missing_payload =
     JObj [(''error'', JStr ''ConfigurationError''),
           (''error_message'', JStr (''GITHUB_TOKEN environment variable not set on the server. ''
              @ ''Please ensure it'' @ apos @ ''s configured for the MCP server process ''
              @ ''(e.g., in Claude Desktop'' @ apos @ ''s mcpServers config).''))]"

text \<open>\<^verbatim>\<open>"error_message" in pr_data\<close> on the dict the helper returned.\<close>

fun has_error_message :: "json \<Rightarrow> exn + bool" where
  "has_error_message (JObj kvs) = Inr (key_in ''error_message'' kvs)"
| "has_error_message (JArr xs) = Inr (JStr ''error_message'' \<in> set xs)"
| "has_error_message (JStr s) =
     Inr (list_ex (\<lambda>i. take 13 (drop i s) = ''error_message'') [0..<Suc (length s)])"
| "has_error_message v =
     Inl (Exn TypeError (''argument of type '' @ quoted (type_name v) @ '' is not iterable''))"

definition last_merged_pr_tool_try :: "network \<Rightarrow> string \<Rightarrow> string \<Rightarrow> string \<Rightarrow> exn + json" where
  "last_merged_pr_tool_try net tok own rep =
     (let gh_helper = \<lparr>owner = own, repo = rep, github_token = tok\<rparr>
      in case get_last_merged_pr_details net gh_helper of
           None \<Rightarrow>
             Inr (JObj [(''message'',
               JStr (''No recently merged PRs found for '' @ own @ ''/'' @ rep @ ''.''))])
         | Some pr_data \<Rightarrow>
             bnd (has_error_message pr_data) (\<lambda>is_err.
               if is_err then Inr pr_data else Inr pr_data))"

definition get_github_last_merged_pr ::
  "string option \<Rightarrow> network \<Rightarrow> string \<Rightarrow> string \<Rightarrow> exn + json" where
  "get_github_last_merged_pr github_token_env net own rep =
     (case env_value github_token_env of
        None \<Rightarrow> Inr token_missing_payload
      | Some tok \<Rightarrow>
        (case last_merged_pr_tool_try net tok own rep of
           Inr payload \<Rightarrow> Inr payload
         | Inl e \<Rightarrow>
             Inr (JObj [(''error'', JStr ''ToolExecutionError''),
                        (''error_message'',
                           JStr (''An unexpected error occurred in the tool: '' @ str_exn e)),
                        (''details'', JObj [(''owner'', JStr own), (''repo'', JStr rep)])])))"

definition get_repo_contents ::
  "string option \<Rightarrow> network \<Rightarrow> string \<Rightarrow> string \<Rightarrow> string \<Rightarrow> exn + json" where
  "get_repo_contents github_token_env net own rep path =
     (case env_value github_token_env of
        None \<Rightarrow> Inr token_missing_payload
      | Some tok \<Rightarrow>
        (let gh_helper = \<lparr>owner = own, repo = rep, github_token = tok\<rparr>
         in bnd (get_dir_content net gh_helper path) (\<lambda>contents. Inr contents)))"

definition get_file_contents ::
  "string option \<Rightarrow> network \<Rightarrow> downloader \<Rightarrow> decoder \<Rightarrow> string \<Rightarrow> string \<Rightarrow> string
     \<Rightarrow> exn + json" where
  "get_file_contents github_token_env net fetch dec own rep path =
     (case env_value github_token_env of
        None \<Rightarrow> Inr token_missing_payload
      | Some tok \<Rightarrow>
        (let gh_helper = \<lparr>owner = own, repo = rep, github_token = tok\<rparr>
         in bnd (get_file_content net fetch dec gh_helper path) (\<lambda>file_content.
              bnd (has_error_message file_content) (\<lambda>is_err.
                if is_err then Inr file_content else Inr file_content))))"

section \<open>Obsidian\_Server.py\<close>

subsection \<open>Strings\<close>

text \<open>\<^verbatim>\<open>s.endswith(t)\<close>\<close>

definition endswith :: "string \<Rightarrow> string \<Rightarrow> bool" where
  "endswith s t = (length t \<le> length s \<and> drop (length s - length t) s = t)"

text \<open>\<^verbatim>\<open>s.split(c)\<close> for a one-character separator: never an empty list.\<close>

fun split_on :: "char \<Rightarrow> string \<Rightarrow> string list" where
  "split_on c [] = [[]]"
| "split_on c (x # xs) =
     (if x = c then [] # split_on c xs
      else (case split_on c xs of
              [] \<Rightarrow> [[x]]
            | w # ws \<Rightarrow> (x # w) # ws))"

text \<open>\<^verbatim>\<open>s.rfind(c)\<close>, with \<open>None\<close> for Python's \<open>-1\<close>.\<close>

definition rfind :: "char \<Rightarrow> string \<Rightarrow> nat option" where
  "rfind c s =
     (let j = length (takeWhile (\<lambda>x. x \<noteq> c) (rev s))
      in if j = length s then None else Some (length s - 1 - j))"

text \<open>\<^verbatim>\<open>s.lower()\<close> on the letters A to Z. No other character lowers to \<^verbatim>\<open>m\<close>, to \<^verbatim>\<open>d\<close>
  or to the dot, so the comparison with \<^verbatim>\<open>".md"\<close> below is not affected by the rest of
  Unicode.\<close>

definition lower_char :: "char \<Rightarrow> char" where
  "lower_char c =
     (case map_of (zip ''ABCDEFGHIJKLMNOPQRSTUVWXYZ'' ''abcdefghijklmnopqrstuvwxyz'') c of
        Some l \<Rightarrow> l
      | None \<Rightarrow> c)"

definition py_lower :: "string \<Rightarrow> string" where
  "py_lower s = map lower_char s"

text \<open>What a file opened for reading in text mode hands over (\<^verbatim>\<open>newline=None\<close>, universal
  newlines): a carriage return with the line feed after it, and a carriage return alone,
  are read as one line feed.\<close>

fun universal_newlines :: "string \<Rightarrow> string" where
  "universal_newlines [] = []"
| "universal_newlines [c] = [if c = CHR 0x0D then CHR 0x0A else c]"
| "universal_newlines (c # d # cs) =
     (if c = CHR 0x0D \<and> d = CHR 0x0A then CHR 0x0A # universal_newlines cs
      else if c = CHR 0x0D then CHR 0x0A # universal_newlines (d # cs)
      else c # universal_newlines (d # cs))"

subsection \<open>pathlib: pure paths\<close>

text \<open>
  A \<^verbatim>\<open>PosixPath\<close> is its root (\<^verbatim>\<open>""\<close>, \<^verbatim>\<open>"/"\<close> or \<^verbatim>\<open>"//"\<close>) and its components. Parsing
  drops empty components and \<^verbatim>\<open>"."\<close>, and keeps \<^verbatim>\<open>".."\<close>.
\<close>

record path =
  p_root :: string
  p_parts :: "string list"

definition parse_root :: "string \<Rightarrow> string" where
  "parse_root s =
     (let n = length (takeWhile (\<lambda>c. c = CHR ''/'') s)
      in if n = 0 then [] else if n = 2 then ''//'' else ''/'')"

definition parse_path :: "string \<Rightarrow> path" where
  "parse_path s =
     \<lparr>p_root = parse_root s,
      p_parts = filter (\<lambda>x. x \<noteq> [] \<and> x \<noteq> ''.'') (split_on (CHR ''/'') s)\<rparr>"

text \<open>\<^verbatim>\<open>base / s\<close>: a rooted right operand replaces the left one.\<close>

definition path_join :: "path \<Rightarrow> string \<Rightarrow> path" where
  "path_join base s =
     (let q = parse_path s
      in if p_root q \<noteq> [] then q
         else \<lparr>p_root = p_root base, p_parts = p_parts base @ p_parts q\<rparr>)"

text \<open>\<^verbatim>\<open>bool(p)\<close>: the class defines neither \<^verbatim>\<open>__bool__\<close> nor \<^verbatim>\<open>__len__\<close>, so every path
  object passes a truth test.\<close>

definition path_truthy :: "path \<Rightarrow> bool" where
  "path_truthy p = True"

definition path_name :: "path \<Rightarrow> string" where
  "path_name p = (if p_parts p = [] then [] else last (p_parts p))"

text \<open>\<^verbatim>\<open>p.suffix\<close>: from the last dot of the name, unless that dot is the first or the last
  character of the name.\<close>

definition path_suffix :: "path \<Rightarrow> string" where
  "path_suffix p =
     (let name = path_name p
      in case rfind (CHR ''.'') name of
           None \<Rightarrow> []
         | Some i \<Rightarrow> if 0 < i \<and> i + 1 < length name then drop i name else [])"

definition path_parent :: "path \<Rightarrow> path" where
  "path_parent p = (if p_parts p = [] then p else p\<lparr>p_parts := butlast (p_parts p)\<rparr>)"

fun join_slash :: "string list \<Rightarrow> string" where
  "join_slash [] = []"
| "join_slash [x] = x"
| "join_slash (x # y # ys) = x @ ''/'' @ join_slash (y # ys)"

text \<open>\<^verbatim>\<open>str(p)\<close>\<close>

definition path_str :: "path \<Rightarrow> string" where
  "path_str p =
     (if p_root p = [] \<and> p_parts p = [] then ''.'' else p_root p @ join_slash (p_parts p))"

text \<open>\<^verbatim>\<open>p.relative_to(other)\<close>: a comparison of components, raising ValueError when
  \<open>other\<close> is no prefix of \<open>p\<close>.\<close>

definition relative_to :: "path \<Rightarrow> path \<Rightarrow> exn + path" where
  "relative_to p other =
     (if p_root p = p_root other
         \<and> take (length (p_parts other)) (p_parts p) = p_parts other
      then Inr \<lparr>p_root = [], p_parts = drop (length (p_parts other)) (p_parts p)\<rparr>
      else Inl (Exn ValueError (quoted (path_str p) @ '' is not in the subpath of ''
             @ quoted (path_str other)
             @ '' OR one path is relative and the other is absolute.'')))"

subsection \<open>The file system\<close>

text \<open>
  The vault lives in a POSIX file system, modelled as a map from canonical absolute
  locations (component lists, \<open>[]\<close> the root directory) to nodes, with the working
  directory of the process. The model has directories and regular files; a file holds
  the text written to it, character by character (on POSIX, writing in text mode
  changes no character). There are no symbolic links and no encoding errors.

  Looking a name up in a directory also fails for reasons that the tree does not show:
  the name is too long (ENAMETOOLONG), the directory may not be searched (EACCES). The
  field \<open>refused\<close> gives, for the location of a directory and a name, the text of the
  OSError that the lookup meets, if any; it is the same for every system call. The limit
  on the length of a whole path, permissions on files and input-output errors are not
  modelled. Failures are the exceptions Python raises for the errno, without the file name
  it appends to the message.
\<close>

datatype node = Dir | File string

record fs =
  nodes :: "string list \<rightharpoonup> node"
  cwd :: "string list"
  refused :: "string list \<Rightarrow> string \<Rightarrow> string option"

definition lookup :: "fs \<Rightarrow> string list \<Rightarrow> node option" where
  "lookup s q = (if q = [] then Some Dir else nodes s q)"

definition FileNotFound :: exn where
  "FileNotFound = Exn FileNotFoundError ''[Errno 2] No such file or directory''"

definition NotADirectory :: exn where
  "NotADirectory = Exn NotADirectoryError ''[Errno 20] Not a directory''"

definition FileExists :: exn where
  "FileExists = Exn FileExistsError ''[Errno 17] File exists''"

definition IsADirectory :: exn where
  "IsADirectory = Exn IsADirectoryError ''[Errno 21] Is a directory''"

definition NulByte :: exn where
  "NulByte = Exn ValueError ''embedded null byte''"

text \<open>\<^verbatim>\<open>except OSError\<close> catches OSError and its four errno subclasses, not the
  ValueError.\<close>

definition is_OSError :: "exn \<Rightarrow> bool" where
  "is_OSError e =
     (exn_cls e \<in> {OSError, FileNotFoundError, NotADirectoryError, FileExistsError,
                     IsADirectoryError})"

text \<open>One component of a path walk: \<^verbatim>\<open>".."\<close> goes to the parent (the root is its own
  parent), a name goes down.\<close>

definition step :: "string list \<Rightarrow> string \<Rightarrow> string list" where
  "step cur c = (if c = ''..'' then butlast cur else cur @ [c])"

text \<open>Looking the name \<open>c\<close> up in the directory at \<open>cur\<close>: the location it names, unless the
  lookup is refused.\<close>

definition enter :: "fs \<Rightarrow> string list \<Rightarrow> string \<Rightarrow> exn + string list" where
  "enter s cur c =
     (case refused s cur c of
        Some msg \<Rightarrow> Inl (Exn OSError msg)
      | None \<Rightarrow> Inr (step cur c))"

text \<open>The kernel walks the components before the last: each must be a directory.\<close>

fun walk :: "fs \<Rightarrow> string list \<Rightarrow> string list \<Rightarrow> exn + string list" where
  "walk s cur [] = Inr cur"
| "walk s cur (c # cs) =
     bnd (enter s cur c) (\<lambda>nxt.
       case lookup s nxt of
         None \<Rightarrow> Inl FileNotFound
       | Some (File t) \<Rightarrow> Inl NotADirectory
       | Some Dir \<Rightarrow> walk s nxt cs)"

definition start_dir :: "fs \<Rightarrow> path \<Rightarrow> string list" where
  "start_dir s p = (if p_root p = [] then cwd s else [])"

definition has_nul :: "path \<Rightarrow> bool" where
  "has_nul p = (\<exists>x \<in> set (p_parts p). CHR 0x00 \<in> set x)"

text \<open>Where a path points: the location of its last component, which need not exist.
  Python refuses a null byte before the system call is made.\<close>

definition locate :: "fs \<Rightarrow> path \<Rightarrow> exn + string list" where
  "locate s p =
     (if has_nul p then Inl NulByte
      else if p_parts p = [] then Inr (start_dir s p)
      else bnd (walk s (start_dir s p) (butlast (p_parts p)))
             (\<lambda>d. enter s d (last (p_parts p))))"

text \<open>\<^verbatim>\<open>os.stat\<close>\<close>

definition stat :: "fs \<Rightarrow> path \<Rightarrow> exn + node" where
  "stat s p =
     bnd (locate s p) (\<lambda>q.
       case lookup s q of None \<Rightarrow> Inl FileNotFound | Some n \<Rightarrow> Inr n)"

text \<open>\<^verbatim>\<open>p.is_file()\<close> and \<^verbatim>\<open>p.is_dir()\<close> catch the OSError of \<^verbatim>\<open>stat\<close> and answer False
  when its errno is ENOENT or ENOTDIR (\<^verbatim>\<open>_ignore_error\<close>; EBADF and ELOOP do not arise
  here), and they answer False on the ValueError of a null byte. Every other OSError is
  raised again.\<close>

definition ignore_error :: "exn \<Rightarrow> bool" where
  "ignore_error e = (exn_cls e \<in> {FileNotFoundError, NotADirectoryError})"

definition is_file :: "fs \<Rightarrow> path \<Rightarrow> exn + bool" where
  "is_file s p =
     (case stat s p of
        Inr n \<Rightarrow> Inr (case n of File t \<Rightarrow> True | Dir \<Rightarrow> False)
      | Inl e \<Rightarrow>
          if is_OSError e then (if ignore_error e then Inr False else Inl e)
          else if exn_cls e = ValueError then Inr False
          else Inl e)"

definition is_dir :: "fs \<Rightarrow> path \<Rightarrow> exn + bool" where
  "is_dir s p =
     (case stat s p of
        Inr n \<Rightarrow> Inr (case n of Dir \<Rightarrow> True | File t \<Rightarrow> False)
      | Inl e \<Rightarrow>
          if is_OSError e then (if ignore_error e then Inr False else Inl e)
          else if exn_cls e = ValueError then Inr False
          else Inl e)"

text \<open>\<^verbatim>\<open>p.read_text(encoding="utf-8")\<close> opens in text mode: the text of the file is read
  with universal newlines.\<close>

definition read_text :: "fs \<Rightarrow> path \<Rightarrow> exn + string" where
  "read_text s p =
     bnd (stat s p) (\<lambda>n.
       case n of Dir \<Rightarrow> Inl IsADirectory | File t \<Rightarrow> Inr (universal_newlines t))"

text \<open>Opening for writing (\<open>trunc\<close>, mode \<^verbatim>\<open>"w"\<close>) or appending (mode \<^verbatim>\<open>"a"\<close>) and writing
  \<open>t\<close>: the file is created when missing.\<close>

definition write_file :: "bool \<Rightarrow> fs \<Rightarrow> path \<Rightarrow> string \<Rightarrow> exn + fs" where
  "write_file trunc s p t =
     bnd (locate s p) (\<lambda>q.
       case lookup s q of
         Some Dir \<Rightarrow> Inl IsADirectory
       | Some (File old) \<Rightarrow> Inr (s\<lparr>nodes := (nodes s)(q \<mapsto> File ((if trunc then [] else old) @ t))\<rparr>)
       | None \<Rightarrow> Inr (s\<lparr>nodes := (nodes s)(q \<mapsto> File t)\<rparr>))"

text \<open>\<^verbatim>\<open>p.write_text(t, encoding="utf-8")\<close>\<close>

definition write_text :: "fs \<Rightarrow> path \<Rightarrow> string \<Rightarrow> exn + fs" where
  "write_text s p t = write_file True s p t"

text \<open>\<^verbatim>\<open>os.mkdir\<close>\<close>

definition os_mkdir :: "fs \<Rightarrow> path \<Rightarrow> exn + fs" where
  "os_mkdir s p =
     bnd (locate s p) (\<lambda>q.
       if p_parts p = [] \<or> last (p_parts p) = ''..'' then Inl FileExists
       else case lookup s q of
              Some n \<Rightarrow> Inl FileExists
            | None \<Rightarrow> Inr (s\<lparr>nodes := (nodes s)(q \<mapsto> Dir)\<rparr>))"

text \<open>\<^verbatim>\<open>p.mkdir(parents=False, exist_ok=True)\<close>: the result is the exception raised, if
  any, and the file system left behind. An OSError other than FileNotFoundError is
  forgiven when the path is a directory; \<^verbatim>\<open>is_dir\<close> is called inside the handler and what
  it raises replaces the first exception.\<close>

definition mkdir_exist_ok :: "fs \<Rightarrow> path \<Rightarrow> exn option \<times> fs" where
  "mkdir_exist_ok s p =
     (case os_mkdir s p of
        Inr s' \<Rightarrow> (None, s')
      | Inl e \<Rightarrow>
          if exn_cls e = FileNotFoundError then (Some e, s)
          else if is_OSError e then
            (case is_dir s p of
               Inl e' \<Rightarrow> (Some e', s)
             | Inr b \<Rightarrow> if b then (None, s) else (Some e, s))
          else (Some e, s))"

text \<open>\<^verbatim>\<open>p.mkdir(parents=True, exist_ok=True)\<close>: on FileNotFoundError the parent is made
  first, by the same method, and the directory itself is tried once more.\<close>

function mkdir_parents :: "fs \<Rightarrow> path \<Rightarrow> exn option \<times> fs" where
  "mkdir_parents s p =
     (case os_mkdir s p of
        Inr s' \<Rightarrow> (None, s')
      | Inl e \<Rightarrow>
          if exn_cls e = FileNotFoundError then
            (if path_parent p = p then (Some e, s)
             else (case mkdir_parents s (path_parent p) of
                     (Some e', s1) \<Rightarrow> (Some e', s1)
                   | (None, s1) \<Rightarrow> mkdir_exist_ok s1 p))
          else if is_OSError e then
            (case is_dir s p of
               Inl e' \<Rightarrow> (Some e', s)
             | Inr b \<Rightarrow> if b then (None, s) else (Some e, s))
          else (Some e, s))"
  by pat_completeness auto
termination
  by (relation "measure (\<lambda>(s, p). length (p_parts p))")
     (auto simp: path_parent_def split: if_splits)

text \<open>\<^verbatim>\<open>p.resolve()\<close>: without symbolic links the result is the absolute path with every
  \<^verbatim>\<open>".."\<close> folded, whether or not the components exist; a null byte in a component makes
  the \<^verbatim>\<open>lstat\<close> of that component raise ValueError, while an OSError of \<^verbatim>\<open>lstat\<close> is
  passed over (\<^verbatim>\<open>strict=False\<close>).\<close>

definition resolve :: "fs \<Rightarrow> path \<Rightarrow> exn + path" where
  "resolve s p =
     (if has_nul p then Inl NulByte
      else Inr \<lparr>p_root = ''/'', p_parts = foldl step (start_dir s p) (p_parts p)\<rparr>)"

subsection \<open>Module level\<close>

text \<open>
  The module binds \<^verbatim>\<open>VAULT_PATH\<close> only inside \<^verbatim>\<open>if VAULT_PATH_VALUE:\<close>. The global is
  therefore either bound to a path or not bound at all; reading an unbound global raises
  NameError. \<open>module_init\<close> takes what \<^verbatim>\<open>os.getenv("VAULT_PATH")\<close> gives.
\<close>

record globals =
  VAULT_PATH :: "path option"

definition module_init :: "string option \<Rightarrow> globals" where
  "module_init VAULT_PATH_VALUE =
     (case env_value VAULT_PATH_VALUE of
        None \<Rightarrow> \<lparr>VAULT_PATH = None\<rparr>
      | Some v \<Rightarrow> \<lparr>VAULT_PATH = Some (parse_path v)\<rparr>)"

definition load_VAULT_PATH :: "globals \<Rightarrow> exn + path" where
  "load_VAULT_PATH g =
     (case VAULT_PATH g of
        None \<Rightarrow> Inl (Exn NameError (''name '' @ quoted ''VAULT_PATH'' @ '' is not defined''))
      | Some p \<Rightarrow> Inr p)"

subsection \<open>The helpers\<close>

definition get_path :: "globals \<Rightarrow> fs \<Rightarrow> string \<Rightarrow> exn + path option" where
  "get_path g s note_path =
     bnd (load_VAULT_PATH g) (\<lambda>vault.
       if \<not> path_truthy vault then Inr None
       else bnd (load_VAULT_PATH g) (\<lambda>vault2.
            bnd (resolve s (path_join vault2 note_path)) (\<lambda>full_path.
              Inr (Some full_path))))"

text \<open>\<open>read_note\<close> has no handler: what \<^verbatim>\<open>is_file\<close> or \<^verbatim>\<open>read_text\<close> raises leaves it.
  \<^verbatim>\<open>is_file\<close> is called only when the suffix is \<^verbatim>\<open>.md\<close>.\<close>

definition read_note :: "fs \<Rightarrow> path \<Rightarrow> exn + string option" where
  "read_note s full_path =
     (if path_suffix full_path = ''.md'' then
        bnd (is_file s full_path) (\<lambda>is_a_file.
          if is_a_file then bnd (read_text s full_path) (\<lambda>t. Inr (Some t))
          else Inr None)
      else Inr None)"

text \<open>
  \<open>append_note\<close> opens the file for appending, reads it through a second handle while
  nothing has been written yet, and the buffered writes reach the file when the
  \<^verbatim>\<open>with\<close> block closes it. Every exception is caught and answered with False.
\<close>

definition newline_before :: "string \<Rightarrow> string" where
  "newline_before current_content =
     (if current_content \<noteq> [] \<and> \<not> endswith current_content [CHR 0x0A] then [CHR 0x0A]
      else [])"

definition append_note :: "fs \<Rightarrow> path \<Rightarrow> string \<Rightarrow> bool \<Rightarrow> bool \<times> fs" where
  "append_note s full_path content_to_append ensure_newline =
     (if path_truthy full_path then
        (case is_file s full_path of
           Inl e \<Rightarrow> (False, s)
         | Inr is_a_file \<Rightarrow>
             if is_a_file \<and> py_lower (path_suffix full_path) = ''.md'' then
               (case write_file False s full_path [] of
                  Inl e \<Rightarrow> (False, s)
                | Inr s1 \<Rightarrow>
                    (case (if ensure_newline then
                             bnd (read_text s1 full_path) (\<lambda>cur. Inr (newline_before cur))
                           else Inr []) of
                       Inl e \<Rightarrow> (False, s1)
                     | Inr nl \<Rightarrow>
                         (case write_file False s1 full_path (nl @ content_to_append) of
                            Inl e \<Rightarrow> (False, s1)
                          | Inr s2 \<Rightarrow> (True, s2))))
             else (False, s))
      else (False, s))"

text \<open>
  \<open>create_note\<close> joins without resolving. Everything raised by \<^verbatim>\<open>mkdir\<close> and
  \<^verbatim>\<open>write_text\<close> is caught and answered with \<^verbatim>\<open>None\<close>; directories made before the
  failure stay.
\<close>

definition with_md :: "string \<Rightarrow> string" where
  "with_md relative_path =
     (if \<not> endswith relative_path ''.md'' then relative_path @ ''.md'' else relative_path)"

definition create_note :: "globals \<Rightarrow> fs \<Rightarrow> string \<Rightarrow> string \<Rightarrow> (exn + path option) \<times> fs" where
  "create_note g s relative_path content =
     (case load_VAULT_PATH g of
        Inl e \<Rightarrow> (Inl e, s)
      | Inr vault \<Rightarrow>
          if \<not> path_truthy vault then (Inr None, s)
          else
            (let full_path = path_join vault (with_md relative_path)
             in if \<not> path_truthy full_path then (Inr None, s)
                else
                  (case mkdir_parents s (path_parent full_path) of
                     (Some e, s1) \<Rightarrow> (Inr None, s1)
                   | (None, s1) \<Rightarrow>
                       (case write_text s1 full_path content of
                          Inl e \<Rightarrow> (Inr None, s1)
                        | Inr s2 \<Rightarrow> (Inr (Some full_path), s2)))))"

subsection \<open>The three tools\<close>

definition err_payload :: "string \<Rightarrow> json" where
  "err_payload msg = JObj [(''error'', JStr msg)]"

definition get_obsidian_note :: "globals \<Rightarrow> fs \<Rightarrow> string \<Rightarrow> exn + json" where
  "get_obsidian_note g s note_path =
     bnd (load_VAULT_PATH g) (\<lambda>vault.
       if \<not> path_truthy vault then
         Inr (err_payload ''OBSIDIAN_VAULT_PATH not configured on server.'')
       else
         bnd (get_path g s note_path) (\<lambda>full_path.
           case full_path of
             None \<Rightarrow> Inr (err_payload (''Invalid note path or access denied: '' @ note_path))
           | Some fp \<Rightarrow>
               if \<not> path_truthy fp then
                 Inr (err_payload (''Invalid note path or access denied: '' @ note_path))
               else
                 bnd (read_note s fp) (\<lambda>content.
                   case content of
                     Some t \<Rightarrow> Inr (JObj [(''path'', JStr note_path), (''content'', JStr t)])
                   | None \<Rightarrow>
                       Inr (err_payload
                         (''Note not found or could not be read: '' @ note_path)))))"

text \<open>The \<^verbatim>\<open>try\<close> of \<open>create_obsidian_note\<close> catches the ValueError of
  \<^verbatim>\<open>relative_to\<close>.\<close>

definition created_payload :: "path \<Rightarrow> path \<Rightarrow> json" where
  "created_payload vault create_path =
     (case relative_to create_path vault of
        Inr rel \<Rightarrow>
          JObj [(''message'', JStr ''Note created/updated successfully.''),
                (''path'', JStr (path_str rel))]
      | Inl e \<Rightarrow>
          err_payload (''Failed to determine relative path for created note: ''
            @ path_str create_path))"

definition create_obsidian_note ::
  "globals \<Rightarrow> fs \<Rightarrow> string \<Rightarrow> string \<Rightarrow> (exn + json) \<times> fs" where
  "create_obsidian_note g s relative_path content =
     (case load_VAULT_PATH g of
        Inl e \<Rightarrow> (Inl e, s)
      | Inr vault \<Rightarrow>
          if \<not> path_truthy vault then
            (Inr (err_payload ''VAULT_PATH not configured on server.''), s)
          else
            (case create_note g s relative_path content of
               (Inl e, s') \<Rightarrow> (Inl e, s')
             | (Inr None, s') \<Rightarrow>
                 (Inr (err_payload (''Failed to create note at: '' @ relative_path)), s')
             | (Inr (Some create_path), s') \<Rightarrow>
                 if path_truthy create_path then
                   (if path_truthy vault then (Inr (created_payload vault create_path), s')
                    else
                      (Inr (JObj [(''message'', JStr ''Note created/updated successfully.''),
                                  (''path'', JStr (path_str create_path))]), s'))
                 else
                   (Inr (err_payload (''Failed to create note at: '' @ relative_path)), s')))"

text \<open>In \<open>append_obsidian_note\<close> the test \<^verbatim>\<open>not full_path_obj.is_file()\<close> stands outside
  every handler: what \<^verbatim>\<open>is_file\<close> raises leaves the tool.\<close>

definition append_obsidian_note ::
  "globals \<Rightarrow> fs \<Rightarrow> string \<Rightarrow> string \<Rightarrow> (exn + json) \<times> fs" where
  "append_obsidian_note g s note_path content_to_append =
     (case load_VAULT_PATH g of
        Inl e \<Rightarrow> (Inl e, s)
      | Inr vault \<Rightarrow>
          if \<not> path_truthy vault then
            (Inr (err_payload ''VAULT_PATH not configured on server.''), s)
          else
            (case get_path g s note_path of
               Inl e \<Rightarrow> (Inl e, s)
             | Inr full_path_obj \<Rightarrow>
                 (case full_path_obj of
                    None \<Rightarrow>
                      (Inr (err_payload (''Note not found or is not a file (cannot append): ''
                         @ note_path)), s)
                  | Some fp \<Rightarrow>
                      if \<not> path_truthy fp then
                        (Inr (err_payload (''Note not found or is not a file (cannot append): ''
                           @ note_path)), s)
                      else
                        (case is_file s fp of
                           Inl e \<Rightarrow> (Inl e, s)
                         | Inr is_a_file \<Rightarrow>
                             if \<not> is_a_file then
                               (Inr (err_payload
                                  (''Note not found or is not a file (cannot append): ''
                                   @ note_path)), s)
                             else
                               (case append_note s fp content_to_append True of
                                  (True, s') \<Rightarrow>
                                    (Inr (JObj [(''message'', JStr (''Content appended to ''
                                       @ quoted note_path @ '' successfully.''))]), s')
                                | (False, s') \<Rightarrow>
                                    (Inr (err_payload (''Failed to append content to note: ''
                                       @ note_path)), s'))))))"

section \<open>What the specification says, for comparison\<close>

subsection \<open>The Change Request Summary\<close>

text \<open>
  An item of the closed-pull-request list as the remote API documents it: an object whose
  merge timestamp is null or a non-empty timestamp string, whose body is null or a string,
  and whose \<^verbatim>\<open>merged_by\<close>, \<^verbatim>\<open>user\<close>, \<^verbatim>\<open>head\<close> and \<^verbatim>\<open>base\<close> are null or objects. A missing key
  counts as null.
\<close>

definition null_or_object :: "json \<Rightarrow> bool" where
  "null_or_object v = (case v of JNull \<Rightarrow> True | JObj kvs \<Rightarrow> True | _ \<Rightarrow> False)"

definition pr_schema_ok :: "(string \<times> json) list \<Rightarrow> bool" where
  "pr_schema_ok kvs =
     ((case dget kvs ''merged_at'' JNull of JNull \<Rightarrow> True | JStr t \<Rightarrow> t \<noteq> [] | _ \<Rightarrow> False)
      \<and> (case dget kvs ''body'' JNull of JNull \<Rightarrow> True | JStr b \<Rightarrow> True | _ \<Rightarrow> False)
      \<and> null_or_object (dget kvs ''merged_by'' JNull)
      \<and> null_or_object (dget kvs ''user'' JNull)
      \<and> null_or_object (dget kvs ''head'' JNull)
      \<and> null_or_object (dget kvs ''base'' JNull))"

fun is_pull_request :: "json \<Rightarrow> bool" where
  "is_pull_request (JObj kvs) = pr_schema_ok kvs"
| "is_pull_request v = False"

text \<open>The specification's words: the merge timestamp is non-null.\<close>

fun spec_merged :: "json \<Rightarrow> bool" where
  "spec_merged (JObj kvs) = (dget kvs ''merged_at'' JNull \<noteq> JNull)"
| "spec_merged v = False"

text \<open>At most 200 characters and an ellipsis marker if longer, else the full body.\<close>

definition spec_truncate :: "string \<Rightarrow> string" where
  "spec_truncate b = (if length b > 200 then take 200 b @ ''...'' else b)"

text \<open>The body field of the summary is a string and is not nullable: the truncation of
  the body, or the empty string for an item that has no body text (the key is absent, or
  null as the API sends it for a change request without a description).\<close>

definition spec_body :: "(string \<times> json) list \<Rightarrow> json" where
  "spec_body kvs =
     (case dget kvs ''body'' JNull of
        JStr b \<Rightarrow> JStr (spec_truncate b)
      | _ \<Rightarrow> JStr [])"

text \<open>An item whose body is not null: it is a text, or the key is absent.\<close>

fun body_not_null :: "json \<Rightarrow> bool" where
  "body_not_null (JObj kvs) = (map_of kvs ''body'' \<noteq> Some JNull)"
| "body_not_null v = False"

text \<open>A nullable identity: the sub-field of a nested object, null without the object.\<close>

definition spec_nested :: "(string \<times> json) list \<Rightarrow> string \<Rightarrow> string \<Rightarrow> json" where
  "spec_nested kvs k sub =
     (case dget kvs k JNull of JObj inner \<Rightarrow> dget inner sub JNull | _ \<Rightarrow> JNull)"

fun spec_summary :: "json \<Rightarrow> json" where
  "spec_summary (JObj kvs) =
     JObj [(''number'', dget kvs ''number'' JNull),
           (''title'', dget kvs ''title'' JNull),
           (''url'', dget kvs ''html_url'' JNull),
           (''merged_at'', dget kvs ''merged_at'' JNull),
           (''merged_by'', spec_nested kvs ''merged_by'' ''login''),
           (''author'', spec_nested kvs ''user'' ''login''),
           (''body_summary'', spec_body kvs),
           (''head_commit_sha'', spec_nested kvs ''head'' ''sha''),
           (''base_branch'', spec_nested kvs ''base'' ''ref'')]"
| "spec_summary v = v"

text \<open>The first item, in the order returned, whose merge timestamp is non-null.\<close>

definition spec_last_merged :: "json list \<Rightarrow> json option" where
  "spec_last_merged prs = map_option spec_summary (find spec_merged prs)"

subsection \<open>The vault\<close>

text \<open>The lookups that a walk makes, from the directory it starts in, are not refused.\<close>

fun accepted :: "fs \<Rightarrow> string list \<Rightarrow> string list \<Rightarrow> bool" where
  "accepted s cur [] = True"
| "accepted s cur (c # cs) = (refused s cur c = None \<and> accepted s (step cur c) cs)"

text \<open>The working directory of a process is a canonical location: its components are
  file names, it is a directory that can be reached from the root, and so is everything
  above it.\<close>

definition dirs_down_to :: "fs \<Rightarrow> string list \<Rightarrow> bool" where
  "dirs_down_to s q = list_all (\<lambda>n. lookup s (take n q) = Some Dir) [0..<Suc (length q)]"

definition name_ok :: "string \<Rightarrow> bool" where
  "name_ok x =
     (x \<noteq> [] \<and> x \<noteq> ''.'' \<and> x \<noteq> ''..'' \<and> CHR ''/'' \<notin> set x \<and> CHR 0x00 \<notin> set x)"

definition cwd_ok :: "fs \<Rightarrow> bool" where
  "cwd_ok s = (dirs_down_to s (cwd s) \<and> list_all name_ok (cwd s) \<and> accepted s [] (cwd s))"

text \<open>The places a path passes through, from the directory it starts in: one after every
  component.\<close>

fun trail :: "string list \<Rightarrow> string list \<Rightarrow> string list list" where
  "trail cur [] = [cur]"
| "trail cur (c # cs) = cur # trail (step cur c) cs"

definition no_file :: "fs \<Rightarrow> string list \<Rightarrow> bool" where
  "no_file s x = (case lookup s x of Some (File t) \<Rightarrow> False | _ \<Rightarrow> True)"

text \<open>
  A note can be written at a path: the system refuses no lookup on the way; no regular file
  stands at a place where the path needs a directory; and the place the path names is no
  directory, neither now nor once the directories of the path are made (it is not a place
  that the path itself passes through, as in \<^verbatim>\<open>x.md/../x.md\<close>).
\<close>

definition writable :: "fs \<Rightarrow> path \<Rightarrow> bool" where
  "writable s p =
     (let above = trail (start_dir s p) (butlast (p_parts p));
          target = foldl step (start_dir s p) (p_parts p)
      in accepted s (start_dir s p) (p_parts p)
         \<and> list_all (no_file s) above
         \<and> target \<notin> set above
         \<and> lookup s target \<noteq> Some Dir)"

text \<open>The newline that the specification puts between the old content and the appended
  text: exactly one, if and only if the old content is non-empty and does not end in one.\<close>

definition spec_separator :: "string \<Rightarrow> string" where
  "spec_separator old = (if old \<noteq> [] \<and> last old \<noteq> CHR 0x0A then [CHR 0x0A] else [])"

text \<open>The name of the note a relative path is created under: the text after its last
  slash, once the extension is appended.\<close>

definition created_name :: "string \<Rightarrow> string" where
  "created_name relative_path = last (split_on (CHR ''/'') (with_md relative_path))"

subsection \<open>A small vault\<close>

text \<open>The vault root \<^verbatim>\<open>/v\<close> holding \<^verbatim>\<open>X.MD\<close> and \<^verbatim>\<open>n.md\<close>, both with content \<^verbatim>\<open>a\<close>; beside the
  vault, \<^verbatim>\<open>/x.md\<close> with content \<^verbatim>\<open>out\<close>. The system refuses the lookup of a name of more
  than 255 characters, as Linux does.\<close>

definition vault_v :: globals where
  "vault_v = module_init (Some ''/v'')"

definition name_too_long :: "string list \<Rightarrow> string \<Rightarrow> string option" where
  "name_too_long d c =
     (if 255 < length c then Some ''[Errno 36] File name too long'' else None)"

definition disk0 :: fs where
  "disk0 = \<lparr>nodes = [[''v''] \<mapsto> Dir, [''v'', ''X.MD''] \<mapsto> File ''a'',
                      [''v'', ''n.md''] \<mapsto> File ''a'', [''x.md''] \<mapsto> File ''out''],
            cwd = [], refused = name_too_long\<rparr>"

text \<open>A transport that answers every request with the given JSON document.\<close>

definition answer_json :: "json \<Rightarrow> network" where
  "answer_json doc = (\<lambda>method url.
     Inr \<lparr>resp_status_error = None, resp_json = Inr doc, resp_text = [],
          resp_encoding = None\<rparr>)"

definition fail_with :: "exn \<Rightarrow> network" where
  "fail_with e = (\<lambda>method url. Inl e)"

section \<open>The claims\<close>

subsection \<open>C1: vault operations without a configured vault root\<close>

text \<open>
  C1 says that, when the VAULT\_PATH environment value is absent, each of
  \<open>get_obsidian_note\<close>, \<open>create_obsidian_note\<close> and \<open>append_obsidian_note\<close> returns the
  configuration-error payload, touches no file and never raises. The code touches no
  file, but it does raise: the global \<^verbatim>\<open>VAULT_PATH\<close> is bound only when the environment
  value is set, so the guard \<^verbatim>\<open>if not VAULT_PATH\<close>, which was written to return the payload,
  reads an unbound name. Each operation ends in NameError, for an unset variable as for
  an empty one, with the file system as it was.
\<close>

theorem C1_unconfigured_vault_raises_NameError:
  "get_obsidian_note (module_init None) s note_path
     = Inl (Exn NameError (''name '' @ quoted ''VAULT_PATH'' @ '' is not defined''))
   \<and> create_obsidian_note (module_init None) s relative_path content
     = (Inl (Exn NameError (''name '' @ quoted ''VAULT_PATH'' @ '' is not defined'')), s)
   \<and> append_obsidian_note (module_init None) s note_path content
     = (Inl (Exn NameError (''name '' @ quoted ''VAULT_PATH'' @ '' is not defined'')), s)
   \<and> get_obsidian_note (module_init (Some [])) s note_path
     = Inl (Exn NameError (''name '' @ quoted ''VAULT_PATH'' @ '' is not defined''))"
  by (simp add: get_obsidian_note_def create_obsidian_note_def append_obsidian_note_def
        module_init_def env_value_def load_VAULT_PATH_def bnd_def)

theorem C1_unconfigured_vault_raises_NameError_witness:
  "get_obsidian_note (module_init None) disk0 ''n.md''
     = Inl (Exn NameError (''name '' @ quoted ''VAULT_PATH'' @ '' is not defined''))
   \<and> append_obsidian_note (module_init None) disk0 ''n.md'' ''b''
     = (Inl (Exn NameError (''name '' @ quoted ''VAULT_PATH'' @ '' is not defined'')), disk0)"
  using C1_unconfigured_vault_raises_NameError [of disk0 "''n.md''" "''n''" "''b''"]
  by simp

subsection \<open>C2: transport exceptions at the remote-repository tools\<close>

text \<open>
  C2 says that no exception of the transport layer leaves
  \<open>get_github_last_merged_pr\<close>, \<open>get_repo_contents\<close> or \<open>get_file_contents\<close>. The first
  tool catches \<^verbatim>\<open>Exception\<close>; the helpers of the other two catch HTTPError only and the
  tools themselves have no handler. With a token configured, a connection error raised by
  the request leaves \<open>get_repo_contents\<close>, and a timeout leaves \<open>get_file_contents\<close>.
\<close>

theorem C2_connection_error_escapes:
  "get_repo_contents (Some ''t'') (fail_with (Exn ConnectionError msg)) own rep path
     = Inl (Exn ConnectionError msg)
   \<and> get_file_contents (Some ''t'') (fail_with (Exn Timeout msg)) fetch dec own rep path
     = Inl (Exn Timeout msg)"
  by (simp add: get_repo_contents_def get_file_contents_def env_value_def fail_with_def
        get_dir_content_def dir_content_try_def get_file_content_def file_content_try_def
        make_github_request_def bnd_def is_HTTPError_def)

subsection \<open>C3: a path that addresses a directory\<close>

text \<open>
  C3 says that \<open>get_file_contents\<close> answers a path that is no file with a "not found"
  payload, also when the remote API answers successfully with a list because the path is a
  directory. On a list the first \<^verbatim>\<open>file_data.get\<close> raises AttributeError, which is no
  HTTPError, and the exception leaves the tool.
\<close>

theorem C3_directory_listing_raises_AttributeError:
  "get_file_contents (Some ''t'') (answer_json (JArr items)) fetch dec own rep path
     = Inl (Exn AttributeError
         (quoted ''list'' @ '' object has no attribute '' @ quoted ''get''))"
  by (simp add: get_file_contents_def env_value_def answer_json_def get_file_content_def
        file_content_try_def make_github_request_def bnd_def is_HTTPError_def)

subsection \<open>C4: the last merged change request\<close>

lemma nested_field_spec:
  assumes "null_or_object (dget kvs k JNull)"
  shows "nested_field (JObj kvs) k sub = Inr (spec_nested kvs k sub)"
proof (cases "map_of kvs k")
  case None
  then show ?thesis by (simp add: nested_field_def spec_nested_def dget_def bnd_def)
next
  case (Some v)
  with assms show ?thesis
    by (cases v) (auto simp: nested_field_def spec_nested_def dget_def bnd_def null_or_object_def)
qed

lemma body_summary_spec:
  assumes "case dget kvs ''body'' JNull of JNull \<Rightarrow> True | JStr b \<Rightarrow> True | _ \<Rightarrow> False"
    and "map_of kvs ''body'' \<noteq> Some JNull"
  shows "body_summary (JObj kvs) = Inr (spec_body kvs)"
proof (cases "map_of kvs ''body''")
  case None
  then show ?thesis by (simp add: body_summary_def spec_body_def dget_def bnd_def)
next
  case (Some v)
  with assms show ?thesis
    by (cases v) (auto simp: body_summary_def spec_body_def spec_truncate_def dget_def bnd_def)
qed

lemma body_summary_null:
  assumes "map_of kvs ''body'' = Some JNull"
  shows "body_summary (JObj kvs) = Inr JNull \<and> spec_body kvs = JStr []"
  using assms by (simp add: body_summary_def spec_body_def dget_def bnd_def)

lemma pr_details_spec:
  assumes "pr_schema_ok kvs" and "map_of kvs ''body'' \<noteq> Some JNull"
  shows "pr_details (JObj kvs) = Inr (spec_summary (JObj kvs))"
  using assms
  by (simp add: pr_details_def pr_schema_ok_def nested_field_spec body_summary_spec bnd_def)

lemma merged_truthy:
  assumes "pr_schema_ok kvs"
  shows "truthy (dget kvs ''merged_at'' JNull) = spec_merged (JObj kvs)"
  using assms by (cases "dget kvs ''merged_at'' JNull") (auto simp: pr_schema_ok_def)

lemma scan_pull_requests_spec:
  assumes "\<forall>pr \<in> set prs. is_pull_request pr \<and> body_not_null pr"
  shows "scan_pull_requests prs = Inr (spec_last_merged prs)"
  using assms
proof (induction prs)
  case Nil
  then show ?case by (simp add: spec_last_merged_def)
next
  case (Cons pr rest)
  then obtain kvs where pr: "pr = JObj kvs" and ok: "pr_schema_ok kvs"
    by (cases pr) auto
  from Cons.prems pr have body: "map_of kvs ''body'' \<noteq> Some JNull" by simp
  from Cons have ih: "scan_pull_requests rest = Inr (spec_last_merged rest)" by simp
  show ?case
  proof (cases "spec_merged (JObj kvs)")
    case True
    then show ?thesis
      using merged_truthy [OF ok] pr_details_spec [OF ok body]
      unfolding pr by (simp add: bnd_def spec_last_merged_def)
  next
    case False
    then show ?thesis
      using merged_truthy [OF ok] ih
      unfolding pr by (simp add: bnd_def spec_last_merged_def)
  qed
qed

lemma spec_last_merged_cases:
  "spec_last_merged prs = None
   \<or> (\<exists>kvs. spec_last_merged prs = Some (spec_summary (JObj kvs)))"
proof (cases "find spec_merged prs")
  case None
  then show ?thesis by (simp add: spec_last_merged_def)
next
  case (Some pr)
  then have "spec_merged pr" by (auto simp: find_Some_iff)
  then obtain kvs where "pr = JObj kvs" by (cases pr) auto
  with Some show ?thesis by (auto simp: spec_last_merged_def)
qed

text \<open>
  What holds of C4: while no item of the list has a null body, the helper returns the
  summary the specification describes, of the first item in API order whose merge timestamp
  is non-null, with the body cut at exactly 200 characters, and \<^verbatim>\<open>None\<close> without such an
  item; the tool returns that summary or the "none found" message. The items are as the API
  documents them (\<open>is_pull_request\<close>); the bound of ten items is not needed.
\<close>

lemma first_merged_summary_of_text_bodies:
  assumes "net ''GET'' (''https://api.github.com/repos/'' @ own @ ''/'' @ rep @ ''/''
             @ ''pulls?state=closed&sort=updated&direction=desc&per_page=10'') = Inr response"
    and "resp_status_error response = None"
    and "resp_json response = Inr (JArr prs)"
    and "\<forall>pr \<in> set prs. is_pull_request pr \<and> body_not_null pr"
    and "tok \<noteq> []"
  shows "get_last_merged_pr_details net \<lparr>owner = own, repo = rep, github_token = tok\<rparr>
           = spec_last_merged prs
       \<and> get_github_last_merged_pr (Some tok) net own rep
           = Inr (case spec_last_merged prs of
                    None \<Rightarrow> JObj [(''message'',
                       JStr (''No recently merged PRs found for '' @ own @ ''/'' @ rep @ ''.''))]
                  | Some summary \<Rightarrow> summary)"
proof -
  have tr: "last_merged_pr_try net \<lparr>owner = own, repo = rep, github_token = tok\<rparr>
      = Inr (spec_last_merged prs)"
    using assms(1,2,3) scan_pull_requests_spec [OF assms(4)]
    by (simp add: last_merged_pr_try_def make_github_request_def bnd_def)
  from tr have helper:
    "get_last_merged_pr_details net \<lparr>owner = own, repo = rep, github_token = tok\<rparr>
      = spec_last_merged prs"
    by (simp add: get_last_merged_pr_details_def)
  from spec_last_merged_cases [of prs] show ?thesis
  proof
    assume "spec_last_merged prs = None"
    with helper assms(5) show ?thesis
      by (simp add: get_github_last_merged_pr_def env_value_def last_merged_pr_tool_try_def)
  next
    assume "\<exists>kvs. spec_last_merged prs = Some (spec_summary (JObj kvs))"
    then obtain kvs where "spec_last_merged prs = Some (spec_summary (JObj kvs))" ..
    with helper assms(5) show ?thesis
      by (simp add: get_github_last_merged_pr_def env_value_def last_merged_pr_tool_try_def
            bnd_def key_in_def)
  qed
qed

text \<open>The specification's test: the third item is the first merged one, and its body of
  201 characters is cut at exactly 200.\<close>

lemma third_item_is_the_first_merged:
  "get_github_last_merged_pr (Some ''t'')
     (answer_json (JArr
        [JObj [(''number'', JNum 9), (''merged_at'', JNull)],
         JObj [(''number'', JNum 8)],
         JObj [(''number'', JNum 7), (''title'', JStr ''fix''), (''html_url'', JStr ''u''),
               (''merged_at'', JStr ''2025-06-07T10:00:00Z''),
               (''merged_by'', JObj [(''login'', JStr ''ann'')]),
               (''user'', JNull),
               (''body'', JStr (replicate 201 (CHR ''b''))),
               (''head'', JObj [(''sha'', JStr ''abc'')]),
               (''base'', JObj [(''ref'', JStr ''main'')])],
         JObj [(''number'', JNum 6), (''merged_at'', JStr ''2025-06-01T10:00:00Z'')]]))
     ''o'' ''r''
   = Inr (JObj [(''number'', JNum 7), (''title'', JStr ''fix''), (''url'', JStr ''u''),
                (''merged_at'', JStr ''2025-06-07T10:00:00Z''),
                (''merged_by'', JStr ''ann''), (''author'', JNull),
                (''body_summary'', JStr (replicate 200 (CHR ''b'') @ ''...'')),
                (''head_commit_sha'', JStr ''abc''), (''base_branch'', JStr ''main'')])"
  using first_merged_summary_of_text_bodies [where net =
      "answer_json (JArr
        [JObj [(''number'', JNum 9), (''merged_at'', JNull)],
         JObj [(''number'', JNum 8)],
         JObj [(''number'', JNum 7), (''title'', JStr ''fix''), (''html_url'', JStr ''u''),
               (''merged_at'', JStr ''2025-06-07T10:00:00Z''),
               (''merged_by'', JObj [(''login'', JStr ''ann'')]),
               (''user'', JNull),
               (''body'', JStr (replicate 201 (CHR ''b''))),
               (''head'', JObj [(''sha'', JStr ''abc'')]),
               (''base'', JObj [(''ref'', JStr ''main'')])],
         JObj [(''number'', JNum 6), (''merged_at'', JStr ''2025-06-01T10:00:00Z'')]])"
      and own = "''o''" and rep = "''r''" and tok = "''t''"]
  by (simp add: answer_json_def pr_schema_ok_def null_or_object_def dget_def
        spec_last_merged_def spec_nested_def spec_body_def spec_truncate_def)

text \<open>
  C4 says that the body field of the summary is the body cut at 200 characters, else the
  full body or the empty string. The code writes \<^verbatim>\<open>pr.get("body", "")\<close> for the last case,
  but the default of \<^verbatim>\<open>dict.get\<close> is used only when the key is absent. For a merged change
  request without a description the API sends \<^verbatim>\<open>"body": null\<close>: the key is present, and the
  summary carries null where the specification has the empty string. Every other field is
  as the claim says.
\<close>

theorem C4_null_body_is_passed_on:
  "get_last_merged_pr_details
     (answer_json (JArr [JObj [(''number'', JNum 7),
                               (''merged_at'', JStr ''2025-06-07T10:00:00Z''),
                               (''body'', JNull)]]))
     \<lparr>owner = ''o'', repo = ''r'', github_token = ''t''\<rparr>
   = Some (JObj [(''number'', JNum 7), (''title'', JNull), (''url'', JNull),
                 (''merged_at'', JStr ''2025-06-07T10:00:00Z''),
                 (''merged_by'', JNull), (''author'', JNull),
                 (''body_summary'', JNull),
                 (''head_commit_sha'', JNull), (''base_branch'', JNull)])
   \<and> get_github_last_merged_pr (Some ''t'')
       (answer_json (JArr [JObj [(''number'', JNum 7),
                                 (''merged_at'', JStr ''2025-06-07T10:00:00Z''),
                                 (''body'', JNull)]]))
       ''o'' ''r''
   = Inr (JObj [(''number'', JNum 7), (''title'', JNull), (''url'', JNull),
                (''merged_at'', JStr ''2025-06-07T10:00:00Z''),
                (''merged_by'', JNull), (''author'', JNull),
                (''body_summary'', JNull),
                (''head_commit_sha'', JNull), (''base_branch'', JNull)])
   \<and> spec_last_merged [JObj [(''number'', JNum 7),
                              (''merged_at'', JStr ''2025-06-07T10:00:00Z''),
                              (''body'', JNull)]]
   = Some (JObj [(''number'', JNum 7), (''title'', JNull), (''url'', JNull),
                 (''merged_at'', JStr ''2025-06-07T10:00:00Z''),
                 (''merged_by'', JNull), (''author'', JNull),
                 (''body_summary'', JStr []),
                 (''head_commit_sha'', JNull), (''base_branch'', JNull)])"
  by (simp add: get_github_last_merged_pr_def env_value_def last_merged_pr_tool_try_def
        get_last_merged_pr_details_def last_merged_pr_try_def make_github_request_def
        answer_json_def pr_details_def nested_field_def body_summary_def bnd_def key_in_def
        dget_def spec_last_merged_def spec_nested_def spec_body_def)

subsection \<open>C5: a base64 payload that does not decode\<close>

text \<open>
  C5: for every file-metadata response (an object) that carries an inline payload and the
  encoding tag \<^verbatim>\<open>base64\<close>, if the base64 decoding or the UTF-8 decoding of its result
  fails, \<open>get_file_contents\<close> still returns a success-shaped File Content Record, whose
  encoding is \<^verbatim>\<open>error_decoding_base64\<close> and whose content is the marker
  \<^verbatim>\<open>Error: Could not decode content.\<close>; nothing is raised.
\<close>

theorem C5_decode_failure_is_marked:
  assumes "net ''GET'' (''https://api.github.com/repos/'' @ own @ ''/'' @ rep @ ''/''
             @ ''contents/'' @ path) = Inr response"
    and "resp_status_error response = None"
    and "resp_json response = Inr (JObj file_data)"
    and "truthy (dget file_data ''content'' JNull)"
    and "dget file_data ''encoding'' JNull = JStr ''base64''"
    and "b64_to_text dec (dget file_data ''content'' JNull) = Inl decode_err"
    and "tok \<noteq> []"
  shows "get_file_contents (Some tok) net fetch dec own rep path
     = Inr (JObj [(''name'', dget file_data ''name'' JNull),
                  (''path'', dget file_data ''path'' JNull),
                  (''sha'', dget file_data ''sha'' JNull),
                  (''size'', dget file_data ''size'' JNull),
                  (''encoding'', JStr ''error_decoding_base64''),
                  (''content'', JStr ''Error: Could not decode content.''),
                  (''html_url'', dget file_data ''html_url'' JNull),
                  (''download_url'', dget file_data ''download_url'' JNull)])"
  using assms
  by (simp add: get_file_contents_def env_value_def get_file_content_def file_content_try_def
        make_github_request_def decode_policy_def bnd_def key_in_def)

theorem C5_decode_failure_is_marked_witness:
  "get_file_contents (Some ''t'')
     (answer_json (JObj [(''name'', JStr ''f.bin''), (''path'', JStr ''d/f.bin''),
                         (''size'', JNum 3), (''content'', JStr ''/w==''),
                         (''encoding'', JStr ''base64'')]))
     (\<lambda>url. Inl (Exn Timeout ''timed out''))
     (\<lambda>payload. Inl (Exn ValueError ''invalid start byte''))
     ''o'' ''r'' ''d/f.bin''
   = Inr (JObj [(''name'', JStr ''f.bin''), (''path'', JStr ''d/f.bin''), (''sha'', JNull),
                (''size'', JNum 3), (''encoding'', JStr ''error_decoding_base64''),
                (''content'', JStr ''Error: Could not decode content.''),
                (''html_url'', JNull), (''download_url'', JNull)])"
  using C5_decode_failure_is_marked [where net =
      "answer_json (JObj [(''name'', JStr ''f.bin''), (''path'', JStr ''d/f.bin''),
                         (''size'', JNum 3), (''content'', JStr ''/w==''),
                         (''encoding'', JStr ''base64'')])"
      and own = "''o''" and rep = "''r''" and path = "''d/f.bin''" and tok = "''t''"
      and file_data = "[(''name'', JStr ''f.bin''), (''path'', JStr ''d/f.bin''),
        (''size'', JNum 3), (''content'', JStr ''/w==''), (''encoding'', JStr ''base64'')]"
      and dec = "\<lambda>payload. Inl (Exn ValueError ''invalid start byte'')"
      and fetch = "\<lambda>url. Inl (Exn Timeout ''timed out'')"]
  by (simp add: answer_json_def dget_def b64_to_text_def)

subsection \<open>Files that exist\<close>

declare mkdir_parents.simps [simp del]

lemma is_file_iff:
  "is_file s p = Inr True \<longleftrightarrow> (\<exists>q t. locate s p = Inr q \<and> lookup s q = Some (File t))"
  by (auto simp: is_file_def stat_def bnd_def
      split: sum.splits option.splits node.splits if_splits)

lemma lookup_File_nodes: "lookup s q = Some (File t) \<Longrightarrow> nodes s q = Some (File t)"
  by (auto simp: lookup_def split: if_splits)

lemma nodes_upd_same:
  assumes "lookup s q = Some (File t)"
  shows "s\<lparr>nodes := (nodes s)(q \<mapsto> File t)\<rparr> = s"
proof -
  have "(nodes s)(q \<mapsto> File t) = nodes s"
    using lookup_File_nodes [OF assms] by (simp add: fun_upd_idem)
  then show ?thesis by simp
qed

lemma open_append_existing:
  assumes "locate s p = Inr q" and "lookup s q = Some (File old)"
  shows "write_file False s p [] = Inr s"
  using assms nodes_upd_same [OF assms(2)] by (simp add: write_file_def bnd_def)

lemma write_append_existing:
  assumes "locate s p = Inr q" and "lookup s q = Some (File old)"
  shows "write_file False s p t = Inr (s\<lparr>nodes := (nodes s)(q \<mapsto> File (old @ t))\<rparr>)"
  using assms by (simp add: write_file_def bnd_def)

lemma read_text_existing:
  assumes "locate s p = Inr q" and "lookup s q = Some (File old)"
  shows "read_text s p = Inr (universal_newlines old)"
  using assms by (simp add: read_text_def stat_def bnd_def)

lemma endswith_single: "endswith t [c] \<longleftrightarrow> t \<noteq> [] \<and> last t = c"
proof (cases t rule: rev_cases)
  case Nil
  then show ?thesis by (simp add: endswith_def)
next
  case (snoc ys y)
  then show ?thesis by (auto simp: endswith_def)
qed

lemma universal_newlines_Nil: "universal_newlines t = [] \<longleftrightarrow> t = []"
  by (induction t rule: universal_newlines.induct) auto

lemma universal_newlines_last:
  "t \<noteq> [] \<Longrightarrow>
     last (universal_newlines t) = CHR 0x0A \<longleftrightarrow> last t = CHR 0x0A \<or> last t = CHR 0x0D"
proof (induction t rule: universal_newlines.induct)
  case 1
  then show ?case by simp
next
  case (2 c)
  then show ?case by simp
next
  case (3 c d cs)
  show ?case
  proof (cases "c = CHR 0x0D \<and> d = CHR 0x0A")
    case True
    show ?thesis
    proof (cases "cs = []")
      case True
      with \<open>c = CHR 0x0D \<and> d = CHR 0x0A\<close> show ?thesis by simp
    next
      case False
      with True "3.IH"(1) show ?thesis by (simp add: universal_newlines_Nil)
    qed
  next
    case False
    have ne: "universal_newlines (d # cs) \<noteq> []" by (simp add: universal_newlines_Nil)
    from False "3.IH"(2,3) have
      "last (universal_newlines (d # cs)) = CHR 0x0A
         \<longleftrightarrow> last (d # cs) = CHR 0x0A \<or> last (d # cs) = CHR 0x0D"
      by (cases "c = CHR 0x0D") simp_all
    with False ne show ?thesis by (cases "c = CHR 0x0D") simp_all
  qed
qed


lemma newline_before_read:
  "newline_before (universal_newlines old)
     = (if old \<noteq> [] \<and> last old \<noteq> CHR 0x0A \<and> last old \<noteq> CHR 0x0D then [CHR 0x0A] else [])"
proof (cases "old = []")
  case True
  then show ?thesis by (simp add: newline_before_def)
next
  case False
  with universal_newlines_last [OF False] show ?thesis
    by (simp add: newline_before_def endswith_single universal_newlines_Nil)
qed

lemma append_note_success:
  assumes "locate s p = Inr q" and "lookup s q = Some (File old)"
    and "py_lower (path_suffix p) = ''.md''"
  shows "append_note s p t e
     = (True, s\<lparr>nodes := (nodes s)(q \<mapsto>
           File (old @ (if e then newline_before (universal_newlines old) else []) @ t))\<rparr>)"
proof -
  have f: "is_file s p = Inr True" using assms(1,2) by (auto simp: is_file_iff)
  show ?thesis
    using f assms(3) open_append_existing [OF assms(1,2)]
      write_append_existing [OF assms(1,2)] read_text_existing [OF assms(1,2)]
    by (simp add: append_note_def path_truthy_def bnd_def)
qed

lemma append_note_refused:
  assumes "\<not> (is_file s p = Inr True \<and> py_lower (path_suffix p) = ''.md'')"
  shows "append_note s p t e = (False, s)"
  using assms by (cases "is_file s p") (auto simp: append_note_def)

lemma append_note_fst:
  "fst (append_note s p t e)
     = (is_file s p = Inr True \<and> py_lower (path_suffix p) = ''.md'')"
proof (cases "is_file s p = Inr True \<and> py_lower (path_suffix p) = ''.md''")
  case True
  then obtain q old where "locate s p = Inr q" "lookup s q = Some (File old)"
    by (auto simp: is_file_iff)
  with True show ?thesis by (simp add: append_note_success)
next
  case False
  then show ?thesis by (simp add: append_note_refused)
qed

lemma read_note_Some:
  "(\<exists>t. read_note s p = Inr (Some t)) = (path_suffix p = ''.md'' \<and> is_file s p = Inr True)"
proof (cases "path_suffix p = ''.md'' \<and> is_file s p = Inr True")
  case True
  then obtain q old where "locate s p = Inr q" "lookup s q = Some (File old)"
    by (auto simp: is_file_iff)
  with True show ?thesis by (simp add: read_note_def read_text_existing bnd_def)
next
  case False
  then show ?thesis
    by (cases "is_file s p") (auto simp: read_note_def bnd_def split: if_splits)
qed

lemma get_path_SomeD:
  assumes "get_path g s note_path = Inr (Some fp)"
  shows "\<exists>vault. load_VAULT_PATH g = Inr vault
           \<and> resolve s (path_join vault note_path) = Inr fp"
  using assms
  by (auto simp: get_path_def bnd_def path_truthy_def split: sum.splits)

lemma split_on_nonempty: "split_on c s \<noteq> []"
  by (induction s) (auto split: list.splits)

lemma split_on_absent: "c \<notin> set ys \<Longrightarrow> split_on c ys = [ys]"
  by (induction ys) auto

lemmas vault_eval = get_obsidian_note_def create_obsidian_note_def append_obsidian_note_def
  module_init_def env_value_def load_VAULT_PATH_def bnd_def get_path_def read_note_def
  append_note_def create_note_def path_truthy_def path_join_def parse_path_def parse_root_def
  resolve_def has_nul_def start_dir_def step_def path_suffix_def path_name_def rfind_def
  is_file_def stat_def locate_def lookup_def read_text_def write_file_def write_text_def
  py_lower_def lower_char_def newline_before_def endswith_def err_payload_def quoted_def
  apos_def vault_v_def disk0_def with_md_def path_parent_def os_mkdir_def mkdir_exist_ok_def
  is_dir_def created_payload_def relative_to_def path_str_def is_OSError_def Let_def
  FileExists_def FileNotFound_def NotADirectory_def IsADirectory_def NulByte_def
  ignore_error_def name_too_long_def enter_def mkdir_parents.simps

subsection \<open>C7: appending to an existing note\<close>

text \<open>
  C7 as stated fails at a note whose content ends in a carriage return. \<open>append_note\<close>
  decides on the newline from what \<^verbatim>\<open>read_text\<close> returns, and a file read in text mode shows
  a final carriage return as a newline. The note \<^verbatim>\<open>r.md\<close> holds \<^verbatim>\<open>a\<close> and a carriage return,
  which is non-empty and does not end in the newline character, so that the rule of the
  claim puts one newline before the appended text; the code inserts nothing and the note
  ends as \<^verbatim>\<open>a\<close>, carriage return, \<^verbatim>\<open>b\<close>.
\<close>

theorem C7_carriage_return_counterexample:
  "append_obsidian_note vault_v
      (disk0\<lparr>nodes := (nodes disk0)([''v'', ''r.md''] \<mapsto> File [CHR ''a'', CHR 0x0D])\<rparr>)
      ''r.md'' ''b''
     = (Inr (JObj [(''message'',
           JStr (''Content appended to '' @ quoted ''r.md'' @ '' successfully.''))]),
        disk0\<lparr>nodes := (nodes disk0)([''v'', ''r.md'']
                  \<mapsto> File [CHR ''a'', CHR 0x0D, CHR ''b''])\<rparr>)
   \<and> [CHR ''a'', CHR 0x0D] @ spec_separator [CHR ''a'', CHR 0x0D] @ ''b''
     = [CHR ''a'', CHR 0x0D, CHR 0x0A, CHR ''b'']"
  by (simp add: vault_eval spec_separator_def)

text \<open>
  C7, as amended: for every existing \<^verbatim>\<open>.md\<close> note (the resolved path \<open>fp\<close> of \<open>note_path\<close>
  points at location \<open>q\<close>, a regular file with content \<open>old\<close>, and the extension is \<^verbatim>\<open>.md\<close>
  in any case) and every text \<open>t\<close>, appending with the newline option on succeeds and
  leaves every other file as it was; the note's content becomes \<open>old\<close>, then exactly one
  newline if and only if \<open>old\<close> is non-empty and ends neither in a newline nor in a carriage
  return, then \<open>t\<close>. The tool \<open>append_obsidian_note\<close> does the same and reports success.
\<close>

theorem C7_append_keeps_content_and_separates:
  assumes "get_path g s note_path = Inr (Some fp)"
    and "locate s fp = Inr q"
    and "lookup s q = Some (File old)"
    and "py_lower (path_suffix fp) = ''.md''"
  shows "append_note s fp t True
           = (True, s\<lparr>nodes := (nodes s)(q \<mapsto> File (old
                @ (if old \<noteq> [] \<and> last old \<noteq> CHR 0x0A \<and> last old \<noteq> CHR 0x0D
                   then [CHR 0x0A] else [])
                @ t))\<rparr>)
       \<and> append_obsidian_note g s note_path t
           = (Inr (JObj [(''message'',
                 JStr (''Content appended to '' @ quoted note_path @ '' successfully.''))]),
              s\<lparr>nodes := (nodes s)(q \<mapsto> File (old
                @ (if old \<noteq> [] \<and> last old \<noteq> CHR 0x0A \<and> last old \<noteq> CHR 0x0D
                   then [CHR 0x0A] else [])
                @ t))\<rparr>)"
proof -
  have helper: "append_note s fp t True
      = (True, s\<lparr>nodes := (nodes s)(q \<mapsto> File (old
                @ (if old \<noteq> [] \<and> last old \<noteq> CHR 0x0A \<and> last old \<noteq> CHR 0x0D
                   then [CHR 0x0A] else [])
                @ t))\<rparr>)"
    using append_note_success [OF assms(2,3,4), of t True]
    by (simp only: newline_before_read if_True)
  have f: "is_file s fp = Inr True" using assms(2,3) by (auto simp: is_file_iff)
  from get_path_SomeD [OF assms(1)] obtain vault where "load_VAULT_PATH g = Inr vault"
    by blast
  with assms(1) f helper show ?thesis
    by (simp add: append_obsidian_note_def path_truthy_def)
qed

text \<open>The note \<^verbatim>\<open>n.md\<close> with content \<^verbatim>\<open>a\<close>, appended with \<^verbatim>\<open>b\<close>, ends as \<^verbatim>\<open>a\<close>, newline,
  \<^verbatim>\<open>b\<close>; after a content that ends in a newline nothing is inserted.\<close>

theorem C7_append_keeps_content_and_separates_witness:
  "append_obsidian_note vault_v disk0 ''n.md'' ''b''
     = (Inr (JObj [(''message'',
           JStr (''Content appended to '' @ quoted ''n.md'' @ '' successfully.''))]),
        disk0\<lparr>nodes := (nodes disk0)([''v'', ''n.md''] \<mapsto> File (''a'' @ [CHR 0x0A] @ ''b''))\<rparr>)
   \<and> fst (append_note
        (disk0\<lparr>nodes := (nodes disk0)([''v'', ''n.md''] \<mapsto> File (''a'' @ [CHR 0x0A]))\<rparr>)
        \<lparr>p_root = ''/'', p_parts = [''v'', ''n.md'']\<rparr> ''b'' True)
   \<and> lookup (snd (append_note
        (disk0\<lparr>nodes := (nodes disk0)([''v'', ''n.md''] \<mapsto> File (''a'' @ [CHR 0x0A]))\<rparr>)
        \<lparr>p_root = ''/'', p_parts = [''v'', ''n.md'']\<rparr> ''b'' True)) [''v'', ''n.md'']
     = Some (File (''a'' @ [CHR 0x0A] @ ''b''))"
  using C7_append_keeps_content_and_separates [where g = vault_v and s = disk0
      and note_path = "''n.md''" and fp = "\<lparr>p_root = ''/'', p_parts = [''v'', ''n.md'']\<rparr>"
      and q = "[''v'', ''n.md'']" and old = "''a''" and t = "''b''"]
    C7_append_keeps_content_and_separates [where g = vault_v
      and s = "disk0\<lparr>nodes := (nodes disk0)([''v'', ''n.md''] \<mapsto> File (''a'' @ [CHR 0x0A]))\<rparr>"
      and note_path = "''n.md''" and fp = "\<lparr>p_root = ''/'', p_parts = [''v'', ''n.md'']\<rparr>"
      and q = "[''v'', ''n.md'']" and old = "''a'' @ [CHR 0x0A]" and t = "''b''"]
  by (simp add: vault_eval)

subsection \<open>C8: appending to what is no note\<close>

text \<open>
  C8 as stated fails in two places. A regular file that lacks the extension passes the
  test of the tool, which looks at \<^verbatim>\<open>is_file\<close> only, and is refused by \<open>append_note\<close>: the
  payload for \<^verbatim>\<open>t.txt\<close> reads "Failed to append content to note", which is no "not found"
  error. A missing target with a name of 256 characters, which the system refuses to look
  up, makes the \<^verbatim>\<open>is_file\<close> of the tool raise OSError, outside every handler, and no
  payload is returned at all. The file system is unchanged in both.
\<close>

theorem C8_not_a_not_found_error_counterexample:
  "append_obsidian_note vault_v
      (disk0\<lparr>nodes := (nodes disk0)([''v'', ''t.txt''] \<mapsto> File ''a'')\<rparr>) ''t.txt'' ''b''
     = (Inr (err_payload ''Failed to append content to note: t.txt''),
        disk0\<lparr>nodes := (nodes disk0)([''v'', ''t.txt''] \<mapsto> File ''a'')\<rparr>)
   \<and> lookup disk0 [''v'', replicate 256 (CHR ''x'')] = None
   \<and> append_obsidian_note vault_v disk0 (replicate 256 (CHR ''x'')) ''b''
     = (Inl (Exn OSError ''[Errno 36] File name too long''), disk0)"
proof (intro conjI)
  show "append_obsidian_note vault_v
      (disk0\<lparr>nodes := (nodes disk0)([''v'', ''t.txt''] \<mapsto> File ''a'')\<rparr>) ''t.txt'' ''b''
     = (Inr (err_payload ''Failed to append content to note: t.txt''),
        disk0\<lparr>nodes := (nodes disk0)([''v'', ''t.txt''] \<mapsto> File ''a'')\<rparr>)"
    by (simp add: vault_eval)
next
  let ?x = "replicate 256 (CHR ''x'')"
  have len: "length ?x = 256" by simp
  have elems: "set ?x = {CHR ''x''}" by simp
  have ne: "?x \<noteq> []" "?x \<noteq> ''.''" "?x \<noteq> ''..''"
    using len by (auto simp del: length_replicate replicate_eq_replicate)
  show "lookup disk0 [''v'', ?x] = None"
    using ne len by (auto simp: disk0_def lookup_def simp del: length_replicate)
  have hd: "?x = CHR ''x'' # replicate 255 (CHR ''x'')"
    by (simp add: numeral_eq_Suc)
  have root: "parse_root ?x = []"
    unfolding parse_root_def by (subst hd) simp
  have "split_on (CHR ''/'') ?x = [?x]"
    by (rule split_on_absent) (simp add: elems)
  with ne root have parse: "parse_path ?x = \<lparr>p_root = [], p_parts = [?x]\<rparr>"
    by (simp add: parse_path_def)
  have vault: "load_VAULT_PATH vault_v = Inr \<lparr>p_root = ''/'', p_parts = [''v'']\<rparr>"
    by (simp add: vault_eval)
  let ?fp = "\<lparr>p_root = ''/'', p_parts = [''v'', ?x]\<rparr>"
  have nonul: "\<not> has_nul ?fp" by (simp add: has_nul_def)
  have gp: "get_path vault_v disk0 ?x = Inr (Some ?fp)"
    using vault parse ne nonul
    by (simp add: get_path_def bnd_def path_truthy_def path_join_def resolve_def
          start_dir_def step_def)
  have "enter disk0 [''v''] ?x = Inl (Exn OSError ''[Errno 36] File name too long'')"
    by (simp add: enter_def disk0_def name_too_long_def)
  moreover have "walk disk0 [] [''v''] = Inr [''v'']"
    by (simp add: enter_def disk0_def name_too_long_def bnd_def step_def lookup_def)
  ultimately have "locate disk0 ?fp = Inl (Exn OSError ''[Errno 36] File name too long'')"
    using nonul by (simp add: locate_def start_dir_def bnd_def)
  then have "is_file disk0 ?fp = Inl (Exn OSError ''[Errno 36] File name too long'')"
    by (simp add: is_file_def stat_def bnd_def is_OSError_def ignore_error_def)
  with vault gp show "append_obsidian_note vault_v disk0 ?x ''b''
     = (Inl (Exn OSError ''[Errno 36] File name too long''), disk0)"
    by (simp add: append_obsidian_note_def path_truthy_def)
qed

text \<open>
  C8, as amended: for every target whose resolved path \<open>fp\<close> does not exist or is no
  regular file (\<^verbatim>\<open>is_file\<close> answers False), the tool \<open>append_obsidian_note\<close> answers with the
  error payload "Note not found or is not a file (cannot append)"; for a regular file that
  lacks the extension \<^verbatim>\<open>.md\<close> (compared without regard to case) it answers with the error
  payload "Failed to append content to note". In both cases \<open>append_note\<close> answers
  False and the file system is left exactly as it was, so no file is created. Nothing is
  said of a target on which \<^verbatim>\<open>is_file\<close> raises.
\<close>

theorem C8_append_refused_leaves_files:
  assumes "get_path g s note_path = Inr (Some fp)"
    and "is_file s fp = Inr is_a_file"
    and "\<not> (is_a_file \<and> py_lower (path_suffix fp) = ''.md'')"
  shows "append_note s fp t e = (False, s)
       \<and> append_obsidian_note g s note_path t
           = (Inr (err_payload
                ((if is_a_file then ''Failed to append content to note: ''
                  else ''Note not found or is not a file (cannot append): '') @ note_path)),
              s)"
proof -
  have helper: "append_note s fp t' e' = (False, s)" for t' e'
    using assms(2,3) by (intro append_note_refused) auto
  from get_path_SomeD [OF assms(1)] obtain vault where "load_VAULT_PATH g = Inr vault"
    by blast
  with assms(1,2) helper show ?thesis
    by (simp add: append_obsidian_note_def path_truthy_def)
qed

text \<open>A missing target, a directory, and a regular file without the extension.\<close>

theorem C8_append_refused_leaves_files_witness:
  "append_obsidian_note vault_v disk0 ''missing.md'' ''b''
     = (Inr (err_payload ''Note not found or is not a file (cannot append): missing.md''),
        disk0)
   \<and> lookup disk0 [''v'', ''missing.md''] = None
   \<and> append_obsidian_note vault_v
        (disk0\<lparr>nodes := (nodes disk0)([''v'', ''d.md''] \<mapsto> Dir)\<rparr>) ''d.md'' ''b''
     = (Inr (err_payload ''Note not found or is not a file (cannot append): d.md''),
        disk0\<lparr>nodes := (nodes disk0)([''v'', ''d.md''] \<mapsto> Dir)\<rparr>)
   \<and> append_note (disk0\<lparr>nodes := (nodes disk0)([''v'', ''t.txt''] \<mapsto> File ''a'')\<rparr>)
        \<lparr>p_root = ''/'', p_parts = [''v'', ''t.txt'']\<rparr> ''b'' True
     = (False, disk0\<lparr>nodes := (nodes disk0)([''v'', ''t.txt''] \<mapsto> File ''a'')\<rparr>)"
  using C8_append_refused_leaves_files [where g = vault_v and s = disk0
      and note_path = "''missing.md''"
      and fp = "\<lparr>p_root = ''/'', p_parts = [''v'', ''missing.md'']\<rparr>" and t = "''b''"
      and e = True and is_a_file = False]
    C8_append_refused_leaves_files [where g = vault_v
      and s = "disk0\<lparr>nodes := (nodes disk0)([''v'', ''d.md''] \<mapsto> Dir)\<rparr>"
      and note_path = "''d.md''"
      and fp = "\<lparr>p_root = ''/'', p_parts = [''v'', ''d.md'']\<rparr>" and t = "''b''"
      and e = True and is_a_file = False]
    C8_append_refused_leaves_files [where g = vault_v
      and s = "disk0\<lparr>nodes := (nodes disk0)([''v'', ''t.txt''] \<mapsto> File ''a'')\<rparr>"
      and note_path = "''t.txt''"
      and fp = "\<lparr>p_root = ''/'', p_parts = [''v'', ''t.txt'']\<rparr>" and t = "''b''"
      and e = True and is_a_file = True]
  by (simp add: vault_eval)

subsection \<open>C9: the two extension checks\<close>

text \<open>
  C9: the extension checks of reading and appending differ in case sensitivity. The vault
  file \<^verbatim>\<open>X.MD\<close> exists as a regular file; \<open>get_obsidian_note\<close> reports it not found while
  \<open>append_obsidian_note\<close> on the same file succeeds and changes it. In general \<open>read_note\<close>
  returns a content exactly for an existing regular file whose suffix is the lowercase
  \<^verbatim>\<open>.md\<close>, and \<open>append_note\<close> succeeds exactly for an existing regular file whose
  lowercased suffix is \<^verbatim>\<open>.md\<close>.
\<close>

theorem C9_read_exact_append_caseless:
  "get_obsidian_note vault_v disk0 ''X.MD''
     = Inr (err_payload ''Note not found or could not be read: X.MD'')
   \<and> append_obsidian_note vault_v disk0 ''X.MD'' ''b''
     = (Inr (JObj [(''message'',
           JStr (''Content appended to '' @ quoted ''X.MD'' @ '' successfully.''))]),
        disk0\<lparr>nodes := (nodes disk0)([''v'', ''X.MD''] \<mapsto> File (''a'' @ [CHR 0x0A] @ ''b''))\<rparr>)
   \<and> (\<exists>content. read_note s p = Inr (Some content))
        = (path_suffix p = ''.md'' \<and> is_file s p = Inr True)
   \<and> fst (append_note s p t e)
        = (is_file s p = Inr True \<and> py_lower (path_suffix p) = ''.md'')"
proof -
  have a: "get_obsidian_note vault_v disk0 ''X.MD''
     = Inr (err_payload ''Note not found or could not be read: X.MD'')"
    by (simp add: vault_eval)
  have b: "append_obsidian_note vault_v disk0 ''X.MD'' ''b''
     = (Inr (JObj [(''message'',
           JStr (''Content appended to '' @ quoted ''X.MD'' @ '' successfully.''))]),
        disk0\<lparr>nodes := (nodes disk0)([''v'', ''X.MD''] \<mapsto> File (''a'' @ [CHR 0x0A] @ ''b''))\<rparr>)"
    by (simp add: vault_eval)
  from a b read_note_Some [of s p] append_note_fst [of s p t e] show ?thesis
    by (intro conjI)
qed

theorem C9_read_exact_append_caseless_witness:
  "get_obsidian_note vault_v disk0 ''X.MD''
     = Inr (err_payload ''Note not found or could not be read: X.MD'')
   \<and> fst (append_note disk0 \<lparr>p_root = ''/'', p_parts = [''v'', ''X.MD'']\<rparr> ''b'' True)
   \<and> is_file disk0 \<lparr>p_root = ''/'', p_parts = [''v'', ''X.MD'']\<rparr> = Inr True
   \<and> path_suffix \<lparr>p_root = ''/'', p_parts = [''v'', ''X.MD'']\<rparr> = ''.MD''"
  using C9_read_exact_append_caseless [where s = disk0
      and p = "\<lparr>p_root = ''/'', p_parts = [''v'', ''X.MD'']\<rparr>" and t = "''b''" and e = True]
  by (simp add: vault_eval)

subsection \<open>C10: paths that leave the vault\<close>

text \<open>
  C10: path resolution does not keep a note inside the vault root. With the root \<^verbatim>\<open>/v\<close>,
  the relative path \<^verbatim>\<open>../x.md\<close> resolves to \<^verbatim>\<open>/x.md\<close>, outside the root; reading returns
  the content of that outside file, appending changes it, and creating \<^verbatim>\<open>../y\<close> writes
  \<^verbatim>\<open>/y.md\<close>. No operation rejects the path.
\<close>

theorem C10_parent_segments_escape_the_vault:
  "VAULT_PATH vault_v = Some \<lparr>p_root = ''/'', p_parts = [''v'']\<rparr>
   \<and> get_path vault_v disk0 ''../x.md'' = Inr (Some \<lparr>p_root = ''/'', p_parts = [''x.md'']\<rparr>)
   \<and> get_obsidian_note vault_v disk0 ''../x.md''
       = Inr (JObj [(''path'', JStr ''../x.md''), (''content'', JStr ''out'')])
   \<and> append_obsidian_note vault_v disk0 ''../x.md'' ''b''
       = (Inr (JObj [(''message'',
             JStr (''Content appended to '' @ quoted ''../x.md'' @ '' successfully.''))]),
          disk0\<lparr>nodes := (nodes disk0)([''x.md''] \<mapsto> File (''out'' @ [CHR 0x0A] @ ''b''))\<rparr>)
   \<and> create_obsidian_note vault_v disk0 ''../y'' ''c''
       = (Inr (JObj [(''message'', JStr ''Note created/updated successfully.''),
                     (''path'', JStr ''../y.md'')]),
          disk0\<lparr>nodes := (nodes disk0)([''y.md''] \<mapsto> File ''c'')\<rparr>)"
proof (intro conjI)
  show "VAULT_PATH vault_v = Some \<lparr>p_root = ''/'', p_parts = [''v'']\<rparr>"
    by (simp add: vault_eval)
  show "get_path vault_v disk0 ''../x.md''
      = Inr (Some \<lparr>p_root = ''/'', p_parts = [''x.md'']\<rparr>)"
    by (simp add: vault_eval)
  show "get_obsidian_note vault_v disk0 ''../x.md''
      = Inr (JObj [(''path'', JStr ''../x.md''), (''content'', JStr ''out'')])"
    by (simp add: vault_eval)
  show "append_obsidian_note vault_v disk0 ''../x.md'' ''b''
       = (Inr (JObj [(''message'',
             JStr (''Content appended to '' @ quoted ''../x.md'' @ '' successfully.''))]),
          disk0\<lparr>nodes := (nodes disk0)([''x.md''] \<mapsto> File (''out'' @ [CHR 0x0A] @ ''b''))\<rparr>)"
    by (simp add: vault_eval)
  show "create_obsidian_note vault_v disk0 ''../y'' ''c''
       = (Inr (JObj [(''message'', JStr ''Note created/updated successfully.''),
                     (''path'', JStr ''../y.md'')]),
          disk0\<lparr>nodes := (nodes disk0)([''y.md''] \<mapsto> File ''c'')\<rparr>)"
    by (simp add: vault_eval)
qed

theorem C10_parent_segments_escape_the_vault_witness:
  "get_obsidian_note vault_v disk0 ''../x.md''
       = Inr (JObj [(''path'', JStr ''../x.md''), (''content'', JStr ''out'')])
   \<and> lookup disk0 [''x.md''] = Some (File ''out'')"
  using C10_parent_segments_escape_the_vault by (simp add: disk0_def lookup_def)

subsection \<open>C6: creating a note and reading it back\<close>

lemma split_on_append:
  assumes "c \<notin> set ys"
  shows "split_on c (xs @ ys) = butlast (split_on c xs) @ [last (split_on c xs) @ ys]"
proof (induction xs)
  case Nil
  then show ?case using assms by (simp add: split_on_absent)
next
  case (Cons x xs)
  show ?case
  proof (cases "x = c")
    case True
    then show ?thesis using Cons split_on_nonempty [of c xs] by simp
  next
    case False
    then show ?thesis
      using Cons split_on_nonempty [of c xs]
      by (cases "split_on c xs") (auto split: list.splits)
  qed
qed

lemma last_split_on_append:
  assumes "c \<notin> set ys"
  shows "last (split_on c (xs @ ys)) = last (split_on c xs) @ ys"
  by (simp add: split_on_append [OF assms])

lemma endswithD: "endswith s t \<Longrightarrow> \<exists>pre. s = pre @ t"
  by (metis append_take_drop_id endswith_def)

lemma with_md_ends: "\<exists>pre. with_md rp = pre @ ''.md''"
proof (cases "endswith rp ''.md''")
  case True
  then show ?thesis by (simp add: with_md_def endswithD)
next
  case False
  then show ?thesis by (simp add: with_md_def)
qed

lemma created_name_ends: "\<exists>base. created_name rp = base @ ''.md''"
proof -
  obtain pre where "with_md rp = pre @ ''.md''" using with_md_ends by blast
  then show ?thesis by (simp add: created_name_def last_split_on_append)
qed

lemma parse_path_last:
  assumes "last (split_on (CHR ''/'') s) = nm" and "nm \<noteq> []" and "nm \<noteq> ''.''"
  shows "p_parts (parse_path s) \<noteq> [] \<and> last (p_parts (parse_path s)) = nm"
proof -
  let ?S = "split_on (CHR ''/'') s"
  have "butlast ?S @ [last ?S] = ?S"
    by (rule append_butlast_last_id) (rule split_on_nonempty)
  with assms(1) have S: "?S = butlast ?S @ [nm]" by simp
  have "filter (\<lambda>x. x \<noteq> [] \<and> x \<noteq> ''.'') (butlast ?S @ [nm])
      = filter (\<lambda>x. x \<noteq> [] \<and> x \<noteq> ''.'') (butlast ?S) @ [nm]"
    using assms(2,3) by simp
  with S have "p_parts (parse_path s)
      = filter (\<lambda>x. x \<noteq> [] \<and> x \<noteq> ''.'') (butlast ?S) @ [nm]"
    unfolding parse_path_def by simp
  then show ?thesis by simp
qed

lemma path_join_last:
  assumes "last (split_on (CHR ''/'') s) = nm" and "nm \<noteq> []" and "nm \<noteq> ''.''"
  shows "p_parts (path_join vault s) \<noteq> [] \<and> last (p_parts (path_join vault s)) = nm"
  using parse_path_last [OF assms] by (simp add: path_join_def Let_def)





text \<open>The name and the directory part of the path that \<open>create_note\<close> writes.\<close>

lemma created_path_parts:
  "\<exists>B. p_parts (path_join vault (with_md rp)) = B @ [created_name rp]"
proof -
  let ?nm = "created_name rp"
  obtain base where base: "?nm = base @ ''.md''" using created_name_ends by blast
  have n1: "?nm \<noteq> []" and n2: "?nm \<noteq> ''.''" unfolding base by simp_all
  have "last (split_on (CHR ''/'') (with_md rp)) = ?nm" by (simp add: created_name_def)
  from path_join_last [OF this n1 n2, of vault]
  have "p_parts (path_join vault (with_md rp)) \<noteq> []"
    and "last (p_parts (path_join vault (with_md rp))) = ?nm"
    by simp_all
  then have "p_parts (path_join vault (with_md rp))
      = butlast (p_parts (path_join vault (with_md rp))) @ [?nm]"
    by (metis append_butlast_last_id)
  then show ?thesis ..
qed

subsubsection \<open>Walking through directories\<close>

lemma dirs_down_to_iff:
  "dirs_down_to s q \<longleftrightarrow> (\<forall>n \<le> length q. lookup s (take n q) = Some Dir)"
  by (auto simp: dirs_down_to_def list_all_iff less_Suc_eq_le)

lemma dirs_down_to_root: "dirs_down_to s []"
  by (simp add: dirs_down_to_iff lookup_def)

lemma dirs_down_to_self: "dirs_down_to s q \<Longrightarrow> lookup s q = Some Dir"
  by (auto simp: dirs_down_to_iff dest: spec [where x = "length q"])

lemma dirs_down_to_butlast: "dirs_down_to s q \<Longrightarrow> lookup s (butlast q) = Some Dir"
  by (auto simp: dirs_down_to_iff butlast_conv_take dest: spec [where x = "length q - 1"])

lemma step_dirs:
  assumes "dirs_down_to s cur" and "lookup s (step cur c) = Some Dir"
  shows "dirs_down_to s (step cur c)"
proof (cases "c = ''..''")
  case True
  have "lookup s (take n (butlast cur)) = Some Dir" if "n \<le> length (butlast cur)" for n
  proof -
    have "take n (butlast cur) = take n cur"
    proof (cases "cur = []")
      case True
      then show ?thesis by simp
    next
      case False
      then have "length cur = Suc (length (butlast cur))"
        by (cases cur rule: rev_cases) auto
      with that have "n < length cur" by arith
      then show ?thesis by (simp add: take_butlast)
    qed
    moreover have "n \<le> length cur" using that by simp
    ultimately show ?thesis using assms(1) by (simp add: dirs_down_to_iff)
  qed
  with True show ?thesis by (simp add: dirs_down_to_iff step_def)
next
  case False
  have "lookup s (take n (cur @ [c])) = Some Dir" if "n \<le> Suc (length cur)" for n
  proof (cases "n \<le> length cur")
    case True
    then show ?thesis using assms(1) by (simp add: dirs_down_to_iff)
  next
    case False
    with that have "n = Suc (length cur)" by simp
    then show ?thesis using assms(2) \<open>c \<noteq> ''..''\<close> by (simp add: step_def)
  qed
  with False show ?thesis by (simp add: dirs_down_to_iff step_def)
qed

lemma walk_ConsD:
  assumes "walk s cur (c # cs) = Inr d"
  shows "refused s cur c = None \<and> lookup s (step cur c) = Some Dir
       \<and> walk s (step cur c) cs = Inr d"
  using assms
  by (auto simp: bnd_def enter_def split: option.splits node.splits sum.splits)

lemma walk_ConsI:
  assumes "refused s cur c = None" and "lookup s (step cur c) = Some Dir"
  shows "walk s cur (c # cs) = walk s (step cur c) cs"
  using assms by (simp add: bnd_def enter_def)

lemma walk_dirs:
  assumes "dirs_down_to s cur" and "walk s cur cs = Inr d"
  shows "dirs_down_to s d"
  using assms
proof (induction cs arbitrary: cur)
  case Nil
  then show ?case by simp
next
  case (Cons c cs)
  from walk_ConsD [OF Cons.prems(2)] have l: "lookup s (step cur c) = Some Dir"
    and w: "walk s (step cur c) cs = Inr d"
    by simp_all
  from Cons.IH [OF step_dirs [OF Cons.prems(1) l] w] show ?case .
qed

lemma walk_foldl:
  assumes "walk s cur cs = Inr d"
  shows "d = foldl step cur cs"
  using assms
proof (induction cs arbitrary: cur)
  case Nil
  then show ?case by simp
next
  case (Cons c cs)
  from walk_ConsD [OF Cons.prems] have "walk s (step cur c) cs = Inr d" by simp
  from Cons.IH [OF this] show ?case by simp
qed

lemma walk_accepted:
  assumes "walk s cur cs = Inr d"
  shows "accepted s cur cs"
  using assms
proof (induction cs arbitrary: cur)
  case Nil
  then show ?case by simp
next
  case (Cons c cs)
  from walk_ConsD [OF Cons.prems] Cons.IH [of "step cur c"] show ?case by simp
qed

lemma accepted_append:
  "accepted s cur (cs @ [c]) \<longleftrightarrow> accepted s cur cs \<and> refused s (foldl step cur cs) c = None"
  by (induction cs arbitrary: cur) auto

lemma accepted_same:
  "refused s' = refused s \<Longrightarrow> accepted s' cur cs = accepted s cur cs"
  by (induction cs arbitrary: cur) auto






lemma walk_append:
  "walk s cur (cs @ [c])
     = bnd (walk s cur cs) (\<lambda>d.
         bnd (enter s d c) (\<lambda>nxt.
           case lookup s nxt of
             None \<Rightarrow> Inl FileNotFound
           | Some (File t) \<Rightarrow> Inl NotADirectory
           | Some Dir \<Rightarrow> Inr nxt))"
proof (induction cs arbitrary: cur)
  case Nil
  show ?case
    by (cases "enter s cur c") (simp_all add: bnd_def split: option.splits node.splits)
next
  case (Cons x xs)
  show ?case
  proof (cases "enter s cur x")
    case (Inl e)
    then show ?thesis by (simp add: bnd_def)
  next
    case (Inr nxt)
    show ?thesis
    proof (cases "lookup s nxt")
      case None
      with Inr show ?thesis by (simp add: bnd_def)
    next
      case (Some n)
      with Inr show ?thesis using Cons [of nxt] by (cases n) (simp_all add: bnd_def)
    qed
  qed
qed

lemma walk_mono:
  assumes "walk s cur cs = Inr d"
    and "\<forall>x n. lookup s x = Some n \<longrightarrow> lookup s' x = Some n"
    and "refused s' = refused s"
  shows "walk s' cur cs = Inr d"
  using assms(1)
proof (induction cs arbitrary: cur)
  case Nil
  then show ?case by simp
next
  case (Cons c cs)
  from walk_ConsD [OF Cons.prems] have r: "refused s cur c = None"
    and l: "lookup s (step cur c) = Some Dir"
    and w: "walk s (step cur c) cs = Inr d"
    by simp_all
  from l assms(2) have l': "lookup s' (step cur c) = Some Dir" by blast
  from r assms(3) have r': "refused s' cur c = None" by simp
  from Cons.IH [OF w] r' l' show ?case by (simp add: bnd_def enter_def)
qed

lemma trail_head: "\<exists>rest. trail cur cs = cur # rest"
  by (cases cs) auto

lemma trail_append: "trail cur (cs @ [c]) = trail cur cs @ [foldl step cur (cs @ [c])]"
  by (induction cs arbitrary: cur) auto

lemma foldl_in_trail: "foldl step cur cs \<in> set (trail cur cs)"
  by (induction cs arbitrary: cur) auto

lemma walk_fails:
  assumes "walk s cur cs = Inl e" and "list_all (no_file s) (trail cur cs)"
    and "accepted s cur cs"
  shows "e = FileNotFound"
  using assms
proof (induction cs arbitrary: cur)
  case Nil
  then show ?case by simp
next
  case (Cons c cs)
  obtain rest where r: "trail (step cur c) cs = step cur c # rest"
    using trail_head by blast
  with Cons.prems(2) have nf: "no_file s (step cur c)"
    and tl: "list_all (no_file s) (trail (step cur c) cs)"
    by simp_all
  from Cons.prems(3) have en: "enter s cur c = Inr (step cur c)"
    and acc: "accepted s (step cur c) cs"
    by (simp_all add: enter_def)
  show ?case
  proof (cases "lookup s (step cur c)")
    case None
    with Cons.prems(1) en show ?thesis by (simp add: bnd_def)
  next
    case (Some n)
    with nf have n: "n = Dir" by (cases n) (simp_all add: no_file_def)
    with Some Cons.prems(1) en have "walk s (step cur c) cs = Inl e" by (simp add: bnd_def)
    from Cons.IH [OF this tl acc] show ?thesis .
  qed
qed

subsubsection \<open>Making the directories of a path\<close>

lemma os_mkdir_keeps:
  assumes "os_mkdir s p = Inr s'"
  shows "cwd s' = cwd s \<and> refused s' = refused s
       \<and> (\<forall>x n. lookup s x = Some n \<longrightarrow> lookup s' x = Some n)"
  using assms
  by (auto simp: os_mkdir_def bnd_def lookup_def split: sum.splits if_splits option.splits)

lemma mkdir_exist_ok_keeps:
  assumes "mkdir_exist_ok s p = (r, s')"
  shows "cwd s' = cwd s \<and> refused s' = refused s
       \<and> (\<forall>x n. lookup s x = Some n \<longrightarrow> lookup s' x = Some n)"
proof (cases "os_mkdir s p")
  case (Inl e)
  with assms have "s' = s"
    by (auto simp: mkdir_exist_ok_def split: if_splits sum.splits)
  then show ?thesis by simp
next
  case (Inr s1)
  with assms have "s' = s1" by (simp add: mkdir_exist_ok_def)
  with os_mkdir_keeps [OF Inr] show ?thesis by simp
qed

lemma mkdir_parents_keeps:
  assumes "mkdir_parents s p = (r, s')"
  shows "cwd s' = cwd s \<and> refused s' = refused s
       \<and> (\<forall>x n. lookup s x = Some n \<longrightarrow> lookup s' x = Some n)"
  using assms
proof (induction s p arbitrary: r s' rule: mkdir_parents.induct)
  case (1 s p)
  show ?case
  proof (cases "os_mkdir s p")
    case (Inr s1)
    from "1.prems" have "s' = s1"
      by (subst (asm) mkdir_parents.simps) (simp add: Inr)
    with os_mkdir_keeps [OF Inr] show ?thesis by simp
  next
    case (Inl e)
    show ?thesis
    proof (cases "exn_cls e = FileNotFoundError \<and> path_parent p \<noteq> p")
      case False
      from "1.prems" have "s' = s"
        by (subst (asm) mkdir_parents.simps)
           (use False in \<open>auto simp: Inl split: if_splits sum.splits\<close>)
      then show ?thesis by simp
    next
      case True
      obtain r1 s1 where up: "mkdir_parents s (path_parent p) = (r1, s1)"
        by (cases "mkdir_parents s (path_parent p)") auto
      from "1.IH" [OF Inl _ _ up] True
      have k1: "cwd s1 = cwd s \<and> refused s1 = refused s
          \<and> (\<forall>x n. lookup s x = Some n \<longrightarrow> lookup s1 x = Some n)"
        by simp
      show ?thesis
      proof (cases r1)
        case (Some e')
        from "1.prems" have "s' = s1"
          by (subst (asm) mkdir_parents.simps) (use True in \<open>simp add: Inl up Some\<close>)
        with k1 show ?thesis by simp
      next
        case None
        from "1.prems" have "mkdir_exist_ok s1 p = (r, s')"
          by (subst (asm) mkdir_parents.simps) (use True in \<open>simp add: Inl up None\<close>)
        from mkdir_exist_ok_keeps [OF this] k1 show ?thesis by simp
      qed
    qed
  qed
qed

lemma keeps_dirs_down_to:
  assumes "dirs_down_to s q"
    and "\<forall>x n. lookup s x = Some n \<longrightarrow> lookup s' x = Some n"
  shows "dirs_down_to s' q"
  using assms by (simp add: dirs_down_to_iff)

text \<open>The last step of \<^verbatim>\<open>mkdir\<close>: when the directories above exist, the directory is made,
  or it is there already.\<close>

lemma mkdir_last:
  assumes parts: "p_parts p = B @ [c]"
    and wk: "walk t (start_dir t p) B = Inr d"
    and dd: "dirs_down_to t (start_dir t p)"
    and nn: "\<not> has_nul p"
    and acc: "refused t d c = None"
    and nf: "no_file t (step d c)"
  shows "\<exists>t2. mkdir_exist_ok t p = (None, t2) \<and> mkdir_parents t p = (None, t2)
           \<and> cwd t2 = cwd t \<and> refused t2 = refused t
           \<and> walk t2 (start_dir t p) (B @ [c]) = Inr (step d c)
           \<and> (\<forall>x. x \<noteq> step d c \<longrightarrow> lookup t2 x = lookup t x)
           \<and> (\<forall>x n. lookup t x = Some n \<longrightarrow> lookup t2 x = Some n)
           \<and> (\<forall>x u. lookup t2 x = Some (File u) \<longrightarrow> lookup t x = Some (File u))"
proof -
  have en: "enter t d c = Inr (step d c)" using acc by (simp add: enter_def)
  have loc: "locate t p = Inr (step d c)"
    using parts wk nn en by (simp add: locate_def bnd_def)
  have dd_d: "dirs_down_to t d" by (rule walk_dirs [OF dd wk])
  have wa: "walk t (start_dir t p) (B @ [c])
      = (case lookup t (step d c) of
           None \<Rightarrow> Inl FileNotFound
         | Some (File u) \<Rightarrow> Inl NotADirectory
         | Some Dir \<Rightarrow> Inr (step d c))"
    using wk en by (simp add: walk_append bnd_def)
  show ?thesis
  proof (cases "lookup t (step d c)")
    case (Some n)
    with nf have n: "n = Dir" by (cases n) (simp_all add: no_file_def)
    from loc Some have mk: "os_mkdir t p = Inl FileExists"
      by (simp add: os_mkdir_def bnd_def)
    from loc Some n have isd: "is_dir t p = Inr True"
      by (simp add: is_dir_def stat_def bnd_def)
    have a: "mkdir_exist_ok t p = (None, t)"
      using mk isd by (simp add: mkdir_exist_ok_def FileExists_def is_OSError_def)
    have b: "mkdir_parents t p = (None, t)"
      using mk isd
      by (subst mkdir_parents.simps) (simp add: FileExists_def is_OSError_def)
    from wa Some n have w: "walk t (start_dir t p) (B @ [c]) = Inr (step d c)" by simp
    have all: "mkdir_exist_ok t p = (None, t) \<and> mkdir_parents t p = (None, t)
           \<and> cwd t = cwd t \<and> refused t = refused t
           \<and> walk t (start_dir t p) (B @ [c]) = Inr (step d c)
           \<and> (\<forall>x. x \<noteq> step d c \<longrightarrow> lookup t x = lookup t x)
           \<and> (\<forall>x n. lookup t x = Some n \<longrightarrow> lookup t x = Some n)
           \<and> (\<forall>x u. lookup t x = Some (File u) \<longrightarrow> lookup t x = Some (File u))"
      using a b w by simp
    show ?thesis by (rule exI [where x = t]) (rule all)
  next
    case None
    have c: "c \<noteq> ''..''"
    proof
      assume "c = ''..''"
      then have "step d c = butlast d" by (simp add: step_def)
      with dirs_down_to_butlast [OF dd_d] None show False by simp
    qed
    then have st: "step d c = d @ [c]" by (simp add: step_def)
    let ?t2 = "t\<lparr>nodes := (nodes t)(d @ [c] \<mapsto> Dir)\<rparr>"
    from loc None c parts have mk: "os_mkdir t p = Inr ?t2"
      by (simp add: os_mkdir_def bnd_def st)
    have a: "mkdir_exist_ok t p = (None, ?t2)" using mk by (simp add: mkdir_exist_ok_def)
    have b: "mkdir_parents t p = (None, ?t2)"
      using mk by (subst mkdir_parents.simps) simp
    have keep: "\<forall>x n. lookup t x = Some n \<longrightarrow> lookup ?t2 x = Some n"
      using None by (auto simp: lookup_def st)
    have other: "\<forall>x. x \<noteq> step d c \<longrightarrow> lookup ?t2 x = lookup t x"
      by (simp add: lookup_def st)
    have files: "\<forall>x u. lookup ?t2 x = Some (File u) \<longrightarrow> lookup t x = Some (File u)"
      by (auto simp: lookup_def st split: if_splits)
    have here: "lookup ?t2 (step d c) = Some Dir" by (simp add: lookup_def st)
    have cw: "cwd ?t2 = cwd t" and rf: "refused ?t2 = refused t" by simp_all
    from walk_mono [OF wk keep rf] have "walk ?t2 (start_dir t p) B = Inr d" .
    moreover have "enter ?t2 d c = Inr (step d c)" using acc by (simp add: enter_def)
    ultimately have w2: "walk ?t2 (start_dir t p) (B @ [c]) = Inr (step d c)"
      using here by (simp add: walk_append bnd_def)
    from a b cw rf w2 other keep files
    have all: "mkdir_exist_ok t p = (None, ?t2) \<and> mkdir_parents t p = (None, ?t2)
           \<and> cwd ?t2 = cwd t \<and> refused ?t2 = refused t
           \<and> walk ?t2 (start_dir t p) (B @ [c]) = Inr (step d c)
           \<and> (\<forall>x. x \<noteq> step d c \<longrightarrow> lookup ?t2 x = lookup t x)
           \<and> (\<forall>x n. lookup t x = Some n \<longrightarrow> lookup ?t2 x = Some n)
           \<and> (\<forall>x u. lookup ?t2 x = Some (File u) \<longrightarrow> lookup t x = Some (File u))"
      by (intro conjI)
    show ?thesis by (rule exI [where x = "?t2"]) (rule all)
  qed
qed

text \<open>\<^verbatim>\<open>mkdir(parents=True, exist_ok=True)\<close> succeeds on a path whose lookups the system
  accepts and on whose way no regular file stands: afterwards the path can be walked, only
  places on the way have changed, and no file has.\<close>

lemma mkdir_parents_makes_way:
  assumes "p_parts p = B"
    and "dirs_down_to s (start_dir s p)"
    and "\<not> has_nul p"
    and "accepted s (start_dir s p) B"
    and "list_all (no_file s) (trail (start_dir s p) B)"
  shows "\<exists>s1. mkdir_parents s p = (None, s1)
           \<and> cwd s1 = cwd s \<and> refused s1 = refused s
           \<and> walk s1 (start_dir s p) B = Inr (foldl step (start_dir s p) B)
           \<and> (\<forall>x. x \<notin> set (trail (start_dir s p) B) \<longrightarrow> lookup s1 x = lookup s x)
           \<and> (\<forall>x n. lookup s x = Some n \<longrightarrow> lookup s1 x = Some n)
           \<and> (\<forall>x u. lookup s1 x = Some (File u) \<longrightarrow> lookup s x = Some (File u))"
  using assms
proof (induction B arbitrary: p rule: rev_induct)
  case Nil
  let ?start = "start_dir s p"
  from Nil.prems(1,3) have loc: "locate s p = Inr ?start"
    by (simp add: locate_def)
  with Nil.prems(1) have mk: "os_mkdir s p = Inl FileExists"
    by (simp add: os_mkdir_def bnd_def)
  from loc dirs_down_to_self [OF Nil.prems(2)] have isd: "is_dir s p = Inr True"
    by (simp add: is_dir_def stat_def bnd_def)
  have m: "mkdir_parents s p = (None, s)"
    using mk isd by (subst mkdir_parents.simps) (simp add: FileExists_def is_OSError_def)
  have all: "mkdir_parents s p = (None, s)
           \<and> cwd s = cwd s \<and> refused s = refused s
           \<and> walk s (start_dir s p) [] = Inr (foldl step (start_dir s p) [])
           \<and> (\<forall>x. x \<notin> set (trail (start_dir s p) []) \<longrightarrow> lookup s x = lookup s x)
           \<and> (\<forall>x n. lookup s x = Some n \<longrightarrow> lookup s x = Some n)
           \<and> (\<forall>x u. lookup s x = Some (File u) \<longrightarrow> lookup s x = Some (File u))"
    using m by simp
  show ?case by (rule exI [where x = s]) (rule all)
next
  case (snoc c B')
  let ?start = "start_dir s p"
  let ?p' = "p\<lparr>p_parts := B'\<rparr>"
  have parts: "p_parts p = B' @ [c]" using snoc.prems(1) .
  have parent: "path_parent p = ?p'" using parts by (simp add: path_parent_def)
  have pne: "path_parent p \<noteq> p"
  proof
    assume "path_parent p = p"
    with parent have "p_parts ?p' = p_parts p" by simp
    with parts show False by simp
  qed
  have start': "start_dir s ?p' = ?start" by (simp add: start_dir_def)
  have nn: "\<not> has_nul p" using snoc.prems(3) .
  have nn': "\<not> has_nul ?p'" using nn parts by (auto simp: has_nul_def)
  from snoc.prems(4) have acc0: "accepted s ?start B'"
    and acc: "refused s (foldl step ?start B') c = None"
    by (simp_all add: accepted_append)
  have acc': "accepted s (start_dir s ?p') B'" using acc0 start' by simp
  have tr: "trail ?start (B' @ [c]) = trail ?start B' @ [foldl step ?start (B' @ [c])]"
    by (rule trail_append)
  from snoc.prems(5) tr have nf': "list_all (no_file s) (trail ?start B')"
    and nf_last: "no_file s (foldl step ?start (B' @ [c]))"
    by simp_all
  have dd': "dirs_down_to s (start_dir s ?p')" using snoc.prems(2) start' by simp
  have nf'': "list_all (no_file s) (trail (start_dir s ?p') B')" using nf' start' by simp
  have "p_parts ?p' = B'" by simp
  from snoc.IH [OF this dd' nn' acc' nf''] obtain s1 where
    ih: "mkdir_parents s ?p' = (None, s1)
           \<and> cwd s1 = cwd s \<and> refused s1 = refused s
           \<and> walk s1 (start_dir s ?p') B' = Inr (foldl step (start_dir s ?p') B')
           \<and> (\<forall>x. x \<notin> set (trail (start_dir s ?p') B') \<longrightarrow> lookup s1 x = lookup s x)
           \<and> (\<forall>x n. lookup s x = Some n \<longrightarrow> lookup s1 x = Some n)
           \<and> (\<forall>x u. lookup s1 x = Some (File u) \<longrightarrow> lookup s x = Some (File u))" ..
  from ih [unfolded start'] have
    up: "mkdir_parents s ?p' = (None, s1)"
    and cw1: "cwd s1 = cwd s" and rf1: "refused s1 = refused s"
    and wk1: "walk s1 ?start B' = Inr (foldl step ?start B')"
    and other1: "\<forall>x. x \<notin> set (trail ?start B') \<longrightarrow> lookup s1 x = lookup s x"
    and keep1: "\<forall>x n. lookup s x = Some n \<longrightarrow> lookup s1 x = Some n"
    and files1: "\<forall>x u. lookup s1 x = Some (File u) \<longrightarrow> lookup s x = Some (File u)"
    by blast+
  let ?d = "foldl step ?start B'"
  have last_eq: "foldl step ?start (B' @ [c]) = step ?d c" by simp
  show ?case
  proof (cases "walk s ?start B'")
    case (Inr d)
    from walk_foldl [OF Inr] have d: "d = ?d" .
    from nf_last have nf: "no_file s (step d c)" by (simp add: d)
    from acc d have accd: "refused s d c = None" by simp
    from mkdir_last [OF parts Inr snoc.prems(2) nn accd nf] obtain t2 where
      ml: "mkdir_exist_ok s p = (None, t2) \<and> mkdir_parents s p = (None, t2)
           \<and> cwd t2 = cwd s \<and> refused t2 = refused s
           \<and> walk t2 ?start (B' @ [c]) = Inr (step d c)
           \<and> (\<forall>x. x \<noteq> step d c \<longrightarrow> lookup t2 x = lookup s x)
           \<and> (\<forall>x n. lookup s x = Some n \<longrightarrow> lookup t2 x = Some n)
           \<and> (\<forall>x u. lookup t2 x = Some (File u) \<longrightarrow> lookup s x = Some (File u))" ..
    from ml have
      m: "mkdir_parents s p = (None, t2)"
      and c2: "cwd t2 = cwd s" and r2: "refused t2 = refused s"
      and w2: "walk t2 ?start (B' @ [c]) = Inr (step d c)"
      and o2: "\<forall>x. x \<noteq> step d c \<longrightarrow> lookup t2 x = lookup s x"
      and k2: "\<forall>x n. lookup s x = Some n \<longrightarrow> lookup t2 x = Some n"
      and f2: "\<forall>x u. lookup t2 x = Some (File u) \<longrightarrow> lookup s x = Some (File u)"
      by blast+
    have o: "\<forall>x. x \<notin> set (trail ?start (B' @ [c])) \<longrightarrow> lookup t2 x = lookup s x"
    proof (intro allI impI)
      fix x assume "x \<notin> set (trail ?start (B' @ [c]))"
      then have "x \<noteq> step d c" by (simp add: tr d)
      with o2 show "lookup t2 x = lookup s x" by blast
    qed
    have w: "walk t2 ?start (B' @ [c]) = Inr (foldl step ?start (B' @ [c]))"
      using w2 d by simp
    from m c2 r2 w o k2 f2
    have all: "mkdir_parents s p = (None, t2)
           \<and> cwd t2 = cwd s \<and> refused t2 = refused s
           \<and> walk t2 ?start (B' @ [c]) = Inr (foldl step ?start (B' @ [c]))
           \<and> (\<forall>x. x \<notin> set (trail ?start (B' @ [c])) \<longrightarrow> lookup t2 x = lookup s x)
           \<and> (\<forall>x n. lookup s x = Some n \<longrightarrow> lookup t2 x = Some n)
           \<and> (\<forall>x u. lookup t2 x = Some (File u) \<longrightarrow> lookup s x = Some (File u))"
      by (intro conjI)
    show ?thesis by (rule exI [where x = t2]) (rule all)
  next
    case (Inl e)
    from walk_fails [OF Inl nf' acc0] have e: "e = FileNotFound" .
    from Inl e parts nn have "locate s p = Inl FileNotFound"
      by (simp add: locate_def bnd_def)
    then have mk: "os_mkdir s p = Inl FileNotFound" by (simp add: os_mkdir_def bnd_def)
    have m1: "mkdir_parents s p = mkdir_exist_ok s1 p"
      using mk pne up parent
      by (subst mkdir_parents.simps) (simp add: FileNotFound_def)
    have st1: "start_dir s1 p = ?start" using cw1 by (simp add: start_dir_def)
    have wk1': "walk s1 (start_dir s1 p) B' = Inr ?d" using wk1 st1 by simp
    have dd1: "dirs_down_to s1 (start_dir s1 p)"
      using keeps_dirs_down_to [OF snoc.prems(2) keep1] st1 by simp
    have acc1: "refused s1 ?d c = None" using acc rf1 by simp
    have nf1: "no_file s1 (step ?d c)"
    proof (cases "lookup s1 (step ?d c)")
      case None
      then show ?thesis by (simp add: no_file_def)
    next
      case (Some n)
      show ?thesis
      proof (cases n)
        case Dir
        with Some show ?thesis by (simp add: no_file_def)
      next
        case (File u)
        with Some files1 have "lookup s (step ?d c) = Some (File u)" by blast
        with nf_last last_eq show ?thesis by (simp add: no_file_def)
      qed
    qed
    from mkdir_last [OF parts wk1' dd1 nn acc1 nf1] obtain t2 where
      ml: "mkdir_exist_ok s1 p = (None, t2) \<and> mkdir_parents s1 p = (None, t2)
           \<and> cwd t2 = cwd s1 \<and> refused t2 = refused s1
           \<and> walk t2 (start_dir s1 p) (B' @ [c]) = Inr (step ?d c)
           \<and> (\<forall>x. x \<noteq> step ?d c \<longrightarrow> lookup t2 x = lookup s1 x)
           \<and> (\<forall>x n. lookup s1 x = Some n \<longrightarrow> lookup t2 x = Some n)
           \<and> (\<forall>x u. lookup t2 x = Some (File u) \<longrightarrow> lookup s1 x = Some (File u))" ..
    from ml [unfolded st1] have
      m: "mkdir_exist_ok s1 p = (None, t2)"
      and c2: "cwd t2 = cwd s1" and r2: "refused t2 = refused s1"
      and w2: "walk t2 ?start (B' @ [c]) = Inr (step ?d c)"
      and o2: "\<forall>x. x \<noteq> step ?d c \<longrightarrow> lookup t2 x = lookup s1 x"
      and k2: "\<forall>x n. lookup s1 x = Some n \<longrightarrow> lookup t2 x = Some n"
      and f2: "\<forall>x u. lookup t2 x = Some (File u) \<longrightarrow> lookup s1 x = Some (File u)"
      by blast+
    have o: "\<forall>x. x \<notin> set (trail ?start (B' @ [c])) \<longrightarrow> lookup t2 x = lookup s x"
    proof (intro allI impI)
      fix x assume "x \<notin> set (trail ?start (B' @ [c]))"
      then have a: "x \<notin> set (trail ?start B')" and b: "x \<noteq> step ?d c"
        by (simp_all add: tr)
      from o2 b have "lookup t2 x = lookup s1 x" by blast
      also from other1 a have "lookup s1 x = lookup s x" by blast
      finally show "lookup t2 x = lookup s x" .
    qed
    have k: "\<forall>x n. lookup s x = Some n \<longrightarrow> lookup t2 x = Some n"
      using keep1 k2 by blast
    have f: "\<forall>x u. lookup t2 x = Some (File u) \<longrightarrow> lookup s x = Some (File u)"
      using files1 f2 by blast
    have w: "walk t2 ?start (B' @ [c]) = Inr (foldl step ?start (B' @ [c]))"
      using w2 by simp
    have m2: "mkdir_parents s p = (None, t2)" using m1 m by simp
    have c3: "cwd t2 = cwd s" using c2 cw1 by simp
    have r3: "refused t2 = refused s" using r2 rf1 by simp
    from m2 c3 r3 w o k f
    have all: "mkdir_parents s p = (None, t2)
           \<and> cwd t2 = cwd s \<and> refused t2 = refused s
           \<and> walk t2 ?start (B' @ [c]) = Inr (foldl step ?start (B' @ [c]))
           \<and> (\<forall>x. x \<notin> set (trail ?start (B' @ [c])) \<longrightarrow> lookup t2 x = lookup s x)
           \<and> (\<forall>x n. lookup s x = Some n \<longrightarrow> lookup t2 x = Some n)
           \<and> (\<forall>x u. lookup t2 x = Some (File u) \<longrightarrow> lookup s x = Some (File u))"
      by (intro conjI)
    show ?thesis by (rule exI [where x = t2]) (rule all)
  qed
qed

subsubsection \<open>Writing the note\<close>

lemma write_text_InrD:
  assumes "write_text s p c = Inr s'"
  shows "\<exists>q. locate s p = Inr q \<and> lookup s q \<noteq> Some Dir
           \<and> s' = s\<lparr>nodes := (nodes s)(q \<mapsto> File c)\<rparr>"
  using assms
  by (auto simp: write_text_def write_file_def bnd_def
      split: sum.splits option.splits node.splits)

lemma write_text_new:
  assumes "locate s p = Inr q" and "lookup s q \<noteq> Some Dir"
  shows "write_text s p c = Inr (s\<lparr>nodes := (nodes s)(q \<mapsto> File c)\<rparr>)"
proof (cases "lookup s q")
  case None
  with assms(1) show ?thesis by (simp add: write_text_def write_file_def bnd_def)
next
  case (Some n)
  with assms(2) obtain old where "n = File old" by (cases n) auto
  with Some assms(1) show ?thesis by (simp add: write_text_def write_file_def bnd_def)
qed

lemma locate_InrD:
  assumes "locate s p = Inr q" and "p_parts p = B @ [nm]" and "nm \<noteq> ''..''"
  shows "\<not> has_nul p
       \<and> (\<exists>d. walk s (start_dir s p) B = Inr d \<and> refused s d nm = None \<and> q = d @ [nm])"
  using assms
  by (auto simp: locate_def bnd_def step_def enter_def
      split: if_splits sum.splits option.splits)

lemma create_note_SomeD:
  assumes "create_note g s rp c = (Inr (Some fp), s')"
  shows "\<exists>vault s1. load_VAULT_PATH g = Inr vault \<and> fp = path_join vault (with_md rp)
           \<and> mkdir_parents s (path_parent fp) = (None, s1)
           \<and> write_text s1 fp c = Inr s'"
proof -
  from assms obtain vault where v: "load_VAULT_PATH g = Inr vault"
    by (cases "load_VAULT_PATH g") (auto simp: create_note_def)
  let ?fp = "path_join vault (with_md rp)"
  obtain r1 s1 where m: "mkdir_parents s (path_parent ?fp) = (r1, s1)"
    by (cases "mkdir_parents s (path_parent ?fp)") auto
  from assms v m have "r1 = None"
    by (cases r1) (auto simp: create_note_def path_truthy_def Let_def)
  with assms v m have "write_text s1 ?fp c = Inr s' \<and> fp = ?fp"
    by (cases "write_text s1 ?fp c") (auto simp: create_note_def path_truthy_def Let_def)
  with v m \<open>r1 = None\<close> show ?thesis by auto
qed

text \<open>Where the vault root is configured and a note can be written, \<open>create_note\<close>
  returns the joined path.\<close>

lemma create_note_succeeds:
  assumes v: "load_VAULT_PATH g = Inr vault"
    and ok: "cwd_ok s"
    and nn: "\<not> has_nul (path_join vault (with_md rp))"
    and w: "writable s (path_join vault (with_md rp))"
  shows "\<exists>s'. create_note g s rp c = (Inr (Some (path_join vault (with_md rp))), s')"
proof -
  let ?fp = "path_join vault (with_md rp)"
  let ?nm = "created_name rp"
  let ?start = "start_dir s ?fp"
  obtain B where parts: "p_parts ?fp = B @ [?nm]" using created_path_parts by blast
  obtain base where base: "?nm = base @ ''.md''" using created_name_ends by blast
  have n3: "?nm \<noteq> ''..''" unfolding base by simp
  let ?P = "?fp\<lparr>p_parts := B\<rparr>"
  have parent: "path_parent ?fp = ?P" using parts by (simp add: path_parent_def)
  have bl: "butlast (p_parts ?fp) = B" using parts by simp
  from w have acc: "accepted s ?start (p_parts ?fp)"
    and nf: "list_all (no_file s) (trail ?start (butlast (p_parts ?fp)))"
    and fresh: "foldl step ?start (p_parts ?fp) \<notin> set (trail ?start (butlast (p_parts ?fp)))"
    and nd: "lookup s (foldl step ?start (p_parts ?fp)) \<noteq> Some Dir"
    by (simp_all add: writable_def Let_def)
  from acc parts have accB: "accepted s ?start B"
    and accn: "refused s (foldl step ?start B) ?nm = None"
    by (simp_all add: accepted_append)
  have startP: "start_dir s ?P = ?start" by (simp add: start_dir_def)
  have dd: "dirs_down_to s (start_dir s ?P)"
  proof (cases "p_root ?fp = []")
    case True
    with ok show ?thesis by (simp add: start_dir_def cwd_ok_def)
  next
    case False
    then show ?thesis by (simp add: start_dir_def dirs_down_to_root)
  qed
  have nnP: "\<not> has_nul ?P" using nn parts by (auto simp: has_nul_def)
  have accP: "accepted s (start_dir s ?P) B" using accB startP by simp
  have nfP: "list_all (no_file s) (trail (start_dir s ?P) B)"
    using nf bl startP by simp
  have "p_parts ?P = B" by simp
  from mkdir_parents_makes_way [OF this dd nnP accP nfP] obtain s1 where
    mw: "mkdir_parents s ?P = (None, s1)
           \<and> cwd s1 = cwd s \<and> refused s1 = refused s
           \<and> walk s1 (start_dir s ?P) B = Inr (foldl step (start_dir s ?P) B)
           \<and> (\<forall>x. x \<notin> set (trail (start_dir s ?P) B) \<longrightarrow> lookup s1 x = lookup s x)
           \<and> (\<forall>x n. lookup s x = Some n \<longrightarrow> lookup s1 x = Some n)
           \<and> (\<forall>x u. lookup s1 x = Some (File u) \<longrightarrow> lookup s x = Some (File u))" ..
  from mw [unfolded startP] have
    mk: "mkdir_parents s ?P = (None, s1)"
    and cw1: "cwd s1 = cwd s" and rf1: "refused s1 = refused s"
    and wk1: "walk s1 ?start B = Inr (foldl step ?start B)"
    and other1: "\<forall>x. x \<notin> set (trail ?start B) \<longrightarrow> lookup s1 x = lookup s x"
    by blast+
  let ?q = "foldl step ?start (p_parts ?fp)"
  have q: "?q = step (foldl step ?start B) ?nm" using parts by simp
  from accn rf1 have acc1: "refused s1 (foldl step ?start B) ?nm = None" by simp
  have st1: "start_dir s1 ?fp = ?start" using cw1 by (simp add: start_dir_def)
  have loc: "locate s1 ?fp = Inr ?q"
    using nn acc1 parts wk1 st1 by (simp add: locate_def bnd_def enter_def)
  from fresh bl have "?q \<notin> set (trail ?start B)" by simp
  with other1 have "lookup s1 ?q = lookup s ?q" by blast
  with nd have "lookup s1 ?q \<noteq> Some Dir" by simp
  from write_text_new [OF loc this]
  have wr: "write_text s1 ?fp c = Inr (s1\<lparr>nodes := (nodes s1)(?q \<mapsto> File c)\<rparr>)" .
  have "create_note g s rp c
      = (Inr (Some ?fp), s1\<lparr>nodes := (nodes s1)(?q \<mapsto> File c)\<rparr>)"
    using v parent mk wr by (simp add: create_note_def path_truthy_def Let_def)
  then show ?thesis by (rule exI [where x = "s1\<lparr>nodes := (nodes s1)(?q \<mapsto> File c)\<rparr>"])
qed


text \<open>The condition \<open>writable\<close> is the exact condition of success: where the vault root is
  configured, \<open>create_note\<close> returns a path if and only if the joined path holds no null
  byte and a note can be written at it.\<close>

lemma walk_trail_dirs:
  assumes "walk s cur cs = Inr d" and "lookup s cur = Some Dir"
  shows "\<forall>x \<in> set (trail cur cs). lookup s x = Some Dir"
  using assms
proof (induction cs arbitrary: cur)
  case Nil
  then show ?case by simp
next
  case (Cons c cs)
  from walk_ConsD [OF Cons.prems(1)] have l: "lookup s (step cur c) = Some Dir"
    and w: "walk s (step cur c) cs = Inr d"
    by simp_all
  from Cons.IH [OF w l] Cons.prems(2) show ?case by simp
qed

lemma create_note_needs_writable:
  assumes ok: "cwd_ok s"
    and cr: "create_note g s rp c = (Inr (Some fp), s')"
  shows "\<not> has_nul fp \<and> writable s fp"
proof -
  let ?nm = "created_name rp"
  from create_note_SomeD [OF cr] obtain vault s1 where
    fp: "fp = path_join vault (with_md rp)"
    and mk: "mkdir_parents s (path_parent fp) = (None, s1)"
    and wr: "write_text s1 fp c = Inr s'"
    by blast
  obtain base where base: "?nm = base @ ''.md''" using created_name_ends by blast
  have n3: "?nm \<noteq> ''..''" unfolding base by simp
  obtain B where parts: "p_parts fp = B @ [?nm]"
    unfolding fp using created_path_parts by blast
  from write_text_InrD [OF wr] obtain q where
    loc: "locate s1 fp = Inr q" and nd1: "lookup s1 q \<noteq> Some Dir"
    by blast
  from locate_InrD [OF loc parts n3] obtain d where
    nonul: "\<not> has_nul fp" and wk: "walk s1 (start_dir s1 fp) B = Inr d"
    and accn: "refused s1 d ?nm = None" and q: "q = d @ [?nm]"
    by blast
  from mkdir_parents_keeps [OF mk] have
    cw: "cwd s1 = cwd s" and rf: "refused s1 = refused s"
    and keep: "\<forall>x n. lookup s x = Some n \<longrightarrow> lookup s1 x = Some n"
    by simp_all
  let ?start = "start_dir s fp"
  have st: "start_dir s1 fp = ?start" by (simp add: start_dir_def cw)
  have "dirs_down_to s ?start"
  proof (cases "p_root fp = []")
    case True
    with ok show ?thesis by (simp add: start_dir_def cwd_ok_def)
  next
    case False
    then show ?thesis by (simp add: start_dir_def dirs_down_to_root)
  qed
  from dirs_down_to_self [OF keeps_dirs_down_to [OF this keep]]
  have start_dir1: "lookup s1 ?start = Some Dir" .
  from wk st have wk': "walk s1 ?start B = Inr d" by simp
  from walk_foldl [OF wk'] have d: "d = foldl step ?start B" .
  from walk_accepted [OF wk'] accepted_same [OF rf] have accB: "accepted s ?start B"
    by simp
  from accn rf d have "refused s (foldl step ?start B) ?nm = None" by simp
  with accB parts have a: "accepted s ?start (p_parts fp)" by (simp add: accepted_append)
  from walk_trail_dirs [OF wk' start_dir1]
  have dirs1: "\<forall>x \<in> set (trail ?start B). lookup s1 x = Some Dir" .
  have b: "list_all (no_file s) (trail ?start B)"
    unfolding list_all_iff
  proof
    fix x assume x: "x \<in> set (trail ?start B)"
    show "no_file s x"
    proof (cases "lookup s x")
      case None
      then show ?thesis by (simp add: no_file_def)
    next
      case (Some n)
      with keep have "lookup s1 x = Some n" by blast
      with dirs1 x have "n = Dir" by simp
      with Some show ?thesis by (simp add: no_file_def)
    qed
  qed
  have tq: "foldl step ?start (p_parts fp) = q"
    using parts d q n3 by (simp add: step_def)
  have c: "q \<notin> set (trail ?start B)" using dirs1 nd1 by blast
  have e: "lookup s q \<noteq> Some Dir" using keep nd1 by blast
  from a b c e parts tq have "writable s fp" by (simp add: writable_def Let_def)
  with nonul show ?thesis by simp
qed

lemma create_note_succeeds_iff:
  assumes "VAULT_PATH g = Some vault" and "cwd_ok s"
  shows "(\<exists>s'. create_note g s rp c = (Inr (Some (path_join vault (with_md rp))), s'))
     \<longleftrightarrow> \<not> has_nul (path_join vault (with_md rp)) \<and> writable s (path_join vault (with_md rp))"
proof
  assume "\<exists>s'. create_note g s rp c = (Inr (Some (path_join vault (with_md rp))), s')"
  then obtain s' where
    "create_note g s rp c = (Inr (Some (path_join vault (with_md rp))), s')" ..
  from create_note_needs_writable [OF assms(2) this]
  show "\<not> has_nul (path_join vault (with_md rp)) \<and> writable s (path_join vault (with_md rp))" .
next
  assume w: "\<not> has_nul (path_join vault (with_md rp))
      \<and> writable s (path_join vault (with_md rp))"
  from assms(1) have v: "load_VAULT_PATH g = Inr vault" by (simp add: load_VAULT_PATH_def)
  from w create_note_succeeds [OF v assms(2)]
  show "\<exists>s'. create_note g s rp c = (Inr (Some (path_join vault (with_md rp))), s')"
    by blast
qed




end
